theory Spec2Isabelle
  imports Complex_Main
begin

section \<open>JavaScript numbers\<close>

text \<open>
  A JavaScript number is an IEEE-754 double. The model keeps its four kinds of value
  apart: a finite number, the two infinities and NaN. A finite number is represented by
  the real it denotes and the arithmetic on finite numbers is exact: rounding to 53 bits,
  overflow of a sum, product or quotient and the sign of zero are not modelled. The
  special values follow the language: NaN is absorbing, a nonzero number divided by zero
  is an infinity, and \<open>0/0\<close>, \<open>\<infinity> - \<infinity>\<close>, \<open>0 * \<infinity>\<close> and \<open>\<infinity>/\<infinity>\<close> are NaN. Where
  a property depends on what the exact arithmetic leaves out, it is written out: the
  overflow and underflow of \<open>Math.pow\<close> in the buffer calculator, the rounding of
  \<open>Number\<close> in the formatter, and the rounding and overflow of every operation in a
  second reading of the unit conversion and of the buffer calculator.
\<close>

datatype jsnum = Fin real | PInf | NInf | NaN

fun jneg :: "jsnum \<Rightarrow> jsnum" where
  "jneg (Fin a) = Fin (- a)"
| "jneg PInf = NInf"
| "jneg NInf = PInf"
| "jneg NaN = NaN"

fun jadd :: "jsnum \<Rightarrow> jsnum \<Rightarrow> jsnum" where
  "jadd (Fin a) (Fin b) = Fin (a + b)"
| "jadd NaN _ = NaN"
| "jadd _ NaN = NaN"
| "jadd PInf NInf = NaN"
| "jadd NInf PInf = NaN"
| "jadd PInf _ = PInf"
| "jadd _ PInf = PInf"
| "jadd NInf _ = NInf"
| "jadd _ NInf = NInf"

definition jsub :: "jsnum \<Rightarrow> jsnum \<Rightarrow> jsnum" where
  "jsub x y = jadd x (jneg y)"

text \<open>The sign of a product or quotient with an infinite operand.\<close>

definition signed_inf :: "bool \<Rightarrow> jsnum" where
  "signed_inf positive = (if positive then PInf else NInf)"

fun jmul :: "jsnum \<Rightarrow> jsnum \<Rightarrow> jsnum" where
  "jmul (Fin a) (Fin b) = Fin (a * b)"
| "jmul NaN _ = NaN"
| "jmul _ NaN = NaN"
| "jmul (Fin a) PInf = (if a = 0 then NaN else signed_inf (0 < a))"
| "jmul (Fin a) NInf = (if a = 0 then NaN else signed_inf (a < 0))"
| "jmul PInf (Fin b) = (if b = 0 then NaN else signed_inf (0 < b))"
| "jmul NInf (Fin b) = (if b = 0 then NaN else signed_inf (b < 0))"
| "jmul PInf PInf = PInf"
| "jmul PInf NInf = NInf"
| "jmul NInf PInf = NInf"
| "jmul NInf NInf = PInf"

fun jdiv :: "jsnum \<Rightarrow> jsnum \<Rightarrow> jsnum" where
  "jdiv (Fin a) (Fin b) =
     (if b = 0 then (if a = 0 then NaN else signed_inf (0 < a)) else Fin (a / b))"
| "jdiv NaN _ = NaN"
| "jdiv _ NaN = NaN"
| "jdiv (Fin a) PInf = Fin 0"
| "jdiv (Fin a) NInf = Fin 0"
| "jdiv PInf (Fin b) = signed_inf (0 \<le> b)"
| "jdiv NInf (Fin b) = signed_inf (b < 0)"
| "jdiv PInf PInf = NaN"
| "jdiv PInf NInf = NaN"
| "jdiv NInf PInf = NaN"
| "jdiv NInf NInf = NaN"

text \<open>\<open>x > 0\<close> and \<open>x !== 0\<close> on a number: every comparison with NaN is false, so
  \<open>NaN > 0\<close> is false and \<open>NaN !== 0\<close> is true.\<close>

fun jgt0 :: "jsnum \<Rightarrow> bool" where
  "jgt0 (Fin a) = (0 < a)"
| "jgt0 PInf = True"
| "jgt0 NInf = False"
| "jgt0 NaN = False"

fun jne0 :: "jsnum \<Rightarrow> bool" where
  "jne0 (Fin a) = (a \<noteq> 0)"
| "jne0 PInf = True"
| "jne0 NInf = True"
| "jne0 NaN = True"

section \<open>The unit registry\<close>

text \<open>
  \<open>UNITS_MAP\<close> maps a family name to its table. A linear family maps a unit to its
  factor to the base unit; a key that is absent reads as \<open>undefined\<close>, here \<open>None\<close>.
  The temperature table holds the number 1 under \<open>C\<close> and two functions under \<open>F\<close>
  and \<open>K\<close>, here \<open>TEMP_F\<close> and \<open>TEMP_K\<close>. Family and unit names are looked up among
  the keys written in the tables; the names every JavaScript object inherits, such as
  \<open>constructor\<close>, are not modelled.
\<close>

definition MASS :: "string \<rightharpoonup> real" where
  "MASS = [''kg'' \<mapsto> 1000, ''g'' \<mapsto> 1, ''mg'' \<mapsto> 1 / 1000, ''ug'' \<mapsto> 1 / 1000000]"

definition VOLUME :: "string \<rightharpoonup> real" where
  "VOLUME = [''L'' \<mapsto> 1, ''mL'' \<mapsto> 1 / 1000, ''uL'' \<mapsto> 1 / 1000000]"

definition MOLARITY :: "string \<rightharpoonup> real" where
  "MOLARITY = [''M'' \<mapsto> 1, ''mM'' \<mapsto> 1 / 1000, ''uM'' \<mapsto> 1 / 1000000]"

definition TEMP :: "string \<rightharpoonup> real" where
  "TEMP = [''C'' \<mapsto> 1]"

definition TEMP_F :: "jsnum \<Rightarrow> jsnum" where
  "TEMP_F c = jadd (jdiv (jmul c (Fin 9)) (Fin 5)) (Fin 32)"

definition TEMP_K :: "jsnum \<Rightarrow> jsnum" where
  "TEMP_K c = jadd c (Fin (27315 / 100))"

definition CONC_DOSE :: "string \<rightharpoonup> real" where
  "CONC_DOSE = [''mg/mL'' \<mapsto> 1, ''g/L'' \<mapsto> 1, ''mcg/mL'' \<mapsto> 1 / 1000, ''% w/v'' \<mapsto> 10]"

definition UNITS_MAP :: "string \<rightharpoonup> (string \<rightharpoonup> real)" where
  "UNITS_MAP =
     [''MASS'' \<mapsto> MASS, ''VOLUME'' \<mapsto> VOLUME, ''MOLARITY'' \<mapsto> MOLARITY,
      ''TEMP'' \<mapsto> TEMP, ''CONC_DOSE'' \<mapsto> CONC_DOSE]"

text \<open>A table entry used as an operand of \<open>*\<close> or \<open>/\<close>: \<open>undefined\<close> converts to NaN.\<close>

fun to_number :: "real option \<Rightarrow> jsnum" where
  "to_number None = NaN"
| "to_number (Some r) = Fin r"

text \<open>
  \<open>convertUnit(value, fromUnit, toUnit, unitType)\<close>: an unknown family returns the value;
  the temperature family goes through degrees Celsius; every other family multiplies by
  the factor of \<open>fromUnit\<close> and divides by the factor of \<open>toUnit\<close>.
\<close>

definition convertUnit :: "jsnum \<Rightarrow> string \<Rightarrow> string \<Rightarrow> string \<Rightarrow> jsnum" where
  "convertUnit val fromUnit toUnit unitType =
     (case UNITS_MAP unitType of
        None \<Rightarrow> val
      | Some table \<Rightarrow>
          if unitType = ''TEMP'' then
            (let baseC =
               (if fromUnit = ''F'' then jdiv (jmul (jsub val (Fin 32)) (Fin 5)) (Fin 9)
                else if fromUnit = ''K'' then jsub val (Fin (27315 / 100))
                else val)
             in if toUnit = ''C'' then baseC
                else if toUnit = ''F'' then TEMP_F baseC
                else if toUnit = ''K'' then TEMP_K baseC
                else baseC)
          else
            (let baseValue = jmul val (to_number (table fromUnit))
             in jdiv baseValue (to_number (table toUnit))))"

text \<open>The units of a family, as \<open>Object.keys\<close> lists them for the unit pickers.\<close>

definition unit_keys :: "string \<Rightarrow> string list" where
  "unit_keys unitType =
     (if unitType = ''MASS'' then [''kg'', ''g'', ''mg'', ''ug'']
      else if unitType = ''VOLUME'' then [''L'', ''mL'', ''uL'']
      else if unitType = ''MOLARITY'' then [''M'', ''mM'', ''uM'']
      else if unitType = ''TEMP'' then [''C'', ''F'', ''K'']
      else if unitType = ''CONC_DOSE'' then [''mg/mL'', ''g/L'', ''mcg/mL'', ''% w/v'']
      else [])"

subsection \<open>The conversion in double precision\<close>

text \<open>
  Whether a conversion returns its argument bit for bit depends on the rounding that the
  exact arithmetic above leaves out. \<open>to_double\<close> rounds a real to the nearest double,
  ties to the even significand: \<open>e\<close> is the binary exponent of the argument, not below
  that of the smallest normal number, and \<open>u\<close> the spacing of the doubles at that
  exponent, for a significand of 53 bits. \<open>rnd\<close> is the result of an operation: the
  rounded value, or an infinity of the same sign when the rounded magnitude reaches
  \<open>2^1024\<close>. \<open>convertUnit_double\<close> is \<open>convertUnit\<close> with every operation rounded, as
  is every literal that is not a whole number.
\<close>

definition pow2 :: "int \<Rightarrow> real" where
  "pow2 k = (if 0 \<le> k then 2 ^ nat k else 1 / 2 ^ nat (- k))"

definition round_ties_even :: "real \<Rightarrow> int" where
  "round_ties_even y =
     (let f = \<lfloor>y\<rfloor>
      in if y - of_int f < 1 / 2 then f
         else if 1 / 2 < y - of_int f then f + 1
         else if even f then f else f + 1)"

definition to_double :: "real \<Rightarrow> real" where
  "to_double x =
     (if x = 0 then 0
      else let e = max \<lfloor>log 2 \<bar>x\<bar>\<rfloor> (- 1022); u = pow2 (e - 52)
           in of_int (round_ties_even (x / u)) * u)"

fun rnd :: "jsnum \<Rightarrow> jsnum" where
  "rnd (Fin a) =
     (let d = to_double a in if 2 ^ 1024 \<le> \<bar>d\<bar> then signed_inf (0 < a) else Fin d)"
| "rnd PInf = PInf"
| "rnd NInf = NInf"
| "rnd NaN = NaN"

declare rnd.simps(1) [simp del]

text \<open>A real that is a finite double.\<close>

definition is_double :: "real \<Rightarrow> bool" where
  "is_double v \<longleftrightarrow> to_double v = v \<and> \<bar>v\<bar> < 2 ^ 1024"

definition TEMP_F_double :: "jsnum \<Rightarrow> jsnum" where
  "TEMP_F_double c = rnd (jadd (rnd (jdiv (rnd (jmul c (Fin 9))) (Fin 5))) (Fin 32))"

definition TEMP_K_double :: "jsnum \<Rightarrow> jsnum" where
  "TEMP_K_double c = rnd (jadd c (rnd (Fin (27315 / 100))))"

definition convertUnit_double :: "jsnum \<Rightarrow> string \<Rightarrow> string \<Rightarrow> string \<Rightarrow> jsnum" where
  "convertUnit_double val fromUnit toUnit unitType =
     (case UNITS_MAP unitType of
        None \<Rightarrow> val
      | Some table \<Rightarrow>
          if unitType = ''TEMP'' then
            (let baseC =
               (if fromUnit = ''F''
                then rnd (jdiv (rnd (jmul (rnd (jsub val (Fin 32))) (Fin 5))) (Fin 9))
                else if fromUnit = ''K'' then rnd (jsub val (rnd (Fin (27315 / 100))))
                else val)
             in if toUnit = ''C'' then baseC
                else if toUnit = ''F'' then TEMP_F_double baseC
                else if toUnit = ''K'' then TEMP_K_double baseC
                else baseC)
          else
            (let baseValue = rnd (jmul val (rnd (to_number (table fromUnit))))
             in rnd (jdiv baseValue (rnd (to_number (table toUnit))))))"

section \<open>Numeric input\<close>

text \<open>
  \<open>filterNumeric(text)\<close> is
  \<open>String(text).replace(/[^0-9.]/g, "").replace(/(\..*)\./g, "$1")\<close>.
  The first replacement deletes every character that is neither a digit nor a point.
  The second scans from the left: at a point that is followed by another point, the
  greedy \<open>.*\<close> runs to the last point of the text, the match from the one to the other
  is replaced by its group, which is the match without its final point, and the scan goes
  on behind the match. Elsewhere the character is copied. After the first replacement no
  line terminator is left, so \<open>.\<close> matches every character.
\<close>

definition keep_numeric :: "string \<Rightarrow> string" where
  "keep_numeric s = filter (\<lambda>c. c \<in> set ''0123456789.'') s"

definition before_last_point :: "string \<Rightarrow> string" where
  "before_last_point cs = rev (tl (dropWhile (\<lambda>c. c \<noteq> CHR ''.'') (rev cs)))"

definition after_last_point :: "string \<Rightarrow> string" where
  "after_last_point cs = rev (takeWhile (\<lambda>c. c \<noteq> CHR ''.'') (rev cs))"

function replace_points :: "string \<Rightarrow> string" where
  "replace_points [] = []"
| "replace_points (c # cs) =
     (if c = CHR ''.'' \<and> CHR ''.'' \<in> set cs
      then c # before_last_point cs @ replace_points (after_last_point cs)
      else c # replace_points cs)"
  by pat_completeness auto
termination
  by (relation "measure length")
     (auto simp: after_last_point_def less_Suc_eq_le
           intro: le_trans [OF length_takeWhile_le])

definition filterNumeric :: "string \<Rightarrow> string" where
  "filterNumeric s = replace_points (keep_numeric s)"

text \<open>
  A text field is represented by the number that
  \<open>Number(String(s).replace(',', '.'))\<close> reads from it: NaN for a text that is not a
  number. \<open>safeParse\<close> returns that number when it is finite and 0 otherwise, so its
  result is always a finite number, here a real.
\<close>

type_synonym field = jsnum

fun safeParse :: "field \<Rightarrow> real" where
  "safeParse (Fin n) = n"
| "safeParse PInf = 0"
| "safeParse NInf = 0"
| "safeParse NaN = 0"

section \<open>The value formatter\<close>

text \<open>
  The argument of \<open>fmt\<close> is \<open>undefined\<close>, \<open>null\<close> or a number. The result is one of:
  the dash string; the string that \<open>num.toExponential(d)\<close> returns, kept symbolic; the
  number \<open>Number(num.toFixed(d))\<close>. Both library calls raise a RangeError for a digit
  count outside 0..100. A TypeError is what reading a property of \<open>undefined\<close> raises.
\<close>

datatype jsval = Undefined | Null | Num jsnum

datatype js_error = RangeError | TypeError

datatype fmt_value = Dash | Exponential real int | Rounded jsnum

text \<open>A \<open>fmt\<close> result that is a JavaScript string, as opposed to a number.\<close>

fun is_string :: "fmt_value \<Rightarrow> bool" where
  "is_string Dash = True"
| "is_string (Exponential x d) = True"
| "is_string (Rounded n) = False"

text \<open>
  \<open>x.toFixed(d)\<close> on a finite \<open>x\<close> of magnitude below \<open>10^21\<close> writes the integer \<open>n\<close>
  with \<open>n / 10^d\<close> nearest to the magnitude of \<open>x\<close>, the larger one of two, with \<open>d\<close>
  fractional digits and the sign of \<open>x\<close>; \<open>Number\<close> reads it back as the nearest
  double, which is far from overflow. A larger or non-finite \<open>x\<close> is written as by
  \<open>String(x)\<close> and read back unchanged.
\<close>

definition round_fixed :: "real \<Rightarrow> nat \<Rightarrow> real" where
  "round_fixed x d = sgn x * of_int \<lfloor>\<bar>x\<bar> * 10 ^ d + 1 / 2\<rfloor> / 10 ^ d"

fun Number_toFixed :: "jsnum \<Rightarrow> int \<Rightarrow> js_error + jsnum" where
  "Number_toFixed num d =
     (if d < 0 \<or> 100 < d then Inl RangeError
      else case num of
             Fin x \<Rightarrow>
               Inr (if 10 ^ 21 \<le> \<bar>x\<bar> then Fin x
                    else Fin (to_double (round_fixed x (nat d))))
           | _ \<Rightarrow> Inr num)"

definition toExponential :: "real \<Rightarrow> int \<Rightarrow> js_error + fmt_value" where
  "toExponential x d = (if d < 0 \<or> 100 < d then Inl RangeError else Inr (Exponential x d))"

fun fmt :: "jsval \<Rightarrow> int \<Rightarrow> js_error + fmt_value" where
  "fmt Undefined d = Inr Dash"
| "fmt Null d = Inr Dash"
| "fmt (Num NaN) d = Inr Dash"
| "fmt (Num (Fin x)) d =
     (if \<bar>x\<bar> < 1 / 10000 \<and> x \<noteq> 0 then toExponential x d
      else map_sum id Rounded (Number_toFixed (Fin x) d))"
| "fmt (Num num) d = map_sum id Rounded (Number_toFixed num d)"

section \<open>The calculators\<close>

text \<open>
  Each screen computes its result from the text fields and unit selections in a
  \<open>useMemo\<close>, and its \<open>calculate\<close> handler hands a record to \<open>saveHistory\<close> under a
  condition on that result. The handler is modelled by the record it hands over, \<open>None\<close>
  when it does not call \<open>saveHistory\<close>. Of the record, the type and the result object
  are kept; the echoed input texts and the summary sentence are left out.
\<close>

record dose_result =
  totalDoseMg :: jsnum
  volNeeded :: jsnum
  mlHrRate :: jsnum
  dropRate :: jsnum

record buffer_result =
  ratio :: jsnum
  acidMass :: jsnum
  saltMass :: jsnum

datatype calc_result =
    DoseResult dose_result
  | SolutionResult jsnum
  | DilutionResult jsnum "(nat \<times> jsnum) list"
  | BufferResult buffer_result
  | ConversionResult jsnum

record history_item =
  item_type :: string
  item_result :: calc_result

subsection \<open>Dose and infusion rate\<close>

text \<open>The empty object \<open>{}\<close> of the incomplete case is \<open>None\<close>.\<close>

definition dose :: "field \<Rightarrow> field \<Rightarrow> string \<Rightarrow> field \<Rightarrow> string \<Rightarrow> field \<Rightarrow> dose_result option" where
  "dose weight dose_amount doseUnit conc concUnit time =
     (let W = safeParse weight; D = safeParse dose_amount; C = safeParse conc;
          T = safeParse time; DF = 20
      in if W \<le> 0 \<or> D \<le> 0 \<or> C \<le> 0 then None
         else
           let D_mg_kg = convertUnit (Fin D) doseUnit ''mg/kg'' ''MASS'';
               C_mg_mL = convertUnit (Fin C) concUnit ''mg/mL'' ''CONC_DOSE'';
               total = jmul (Fin W) D_mg_kg;
               vol = jdiv total C_mg_mL;
               rates = (if jgt0 vol \<and> 0 < T
                        then (jmul (jdiv vol (Fin T)) (Fin 60), jdiv (jmul vol (Fin DF)) (Fin T))
                        else (Fin 0, Fin 0))
           in Some \<lparr>totalDoseMg = total, volNeeded = vol,
                    mlHrRate = fst rates, dropRate = snd rates\<rparr>)"

text \<open>\<open>calculate\<close>: a record is saved if \<open>totalDoseMg > 0\<close>, which is false for the
  \<open>undefined\<close> read from \<open>{}\<close>.\<close>

definition dose_calculate :: "field \<Rightarrow> field \<Rightarrow> string \<Rightarrow> field \<Rightarrow> string \<Rightarrow> field \<Rightarrow> history_item option" where
  "dose_calculate weight dose_amount doseUnit conc concUnit time =
     (case dose weight dose_amount doseUnit conc concUnit time of
        None \<Rightarrow> None
      | Some r \<Rightarrow>
          if jgt0 (totalDoseMg r)
          then Some \<lparr>item_type = ''Dose Calculation'', item_result = DoseResult r\<rparr>
          else None)"

subsection \<open>Solution mass\<close>

definition solution :: "field \<Rightarrow> field \<Rightarrow> string \<Rightarrow> field \<Rightarrow> string \<Rightarrow> jsnum" where
  "solution mw conc concUnit volume volUnit =
     (let MW = safeParse mw; C = safeParse conc; V = safeParse volume
      in if MW \<le> 0 \<or> V \<le> 0 \<or> C \<le> 0 then Fin 0
         else
           let V_L = convertUnit (Fin V) volUnit ''L'' ''VOLUME''
           in if concUnit = ''% w/v'' then
                (let V_mL = convertUnit (Fin V) volUnit ''mL'' ''VOLUME''
                 in jdiv (jmul (Fin C) V_mL) (Fin 100))
              else if concUnit = ''M'' then jmul (jmul (Fin C) V_L) (Fin MW)
              else
                (let C_M = convertUnit (Fin C) concUnit ''M'' ''MOLARITY''
                 in jmul (jmul C_M V_L) (Fin MW)))"

definition solution_calculate :: "field \<Rightarrow> field \<Rightarrow> string \<Rightarrow> field \<Rightarrow> string \<Rightarrow> history_item option" where
  "solution_calculate mw conc concUnit volume volUnit =
     (let g_result = solution mw conc concUnit volume volUnit
      in if jgt0 g_result
         then Some \<lparr>item_type = ''Solution Calculation'', item_result = SolutionResult g_result\<rparr>
         else None)"

subsection \<open>Serial dilution\<close>

text \<open>
  A data point is the pair of its \<open>x\<close> (the step) and its \<open>y\<close> (the concentration); the
  label is left out. The loop \<open>for (let i = 1; i <= S; i++)\<close> compares the counter with
  the parsed step count, which need not be a whole number.
\<close>

function dilution_loop :: "real \<Rightarrow> real \<Rightarrow> nat \<Rightarrow> jsnum \<Rightarrow> (nat \<times> jsnum) list \<Rightarrow> (nat \<times> jsnum) list" where
  "dilution_loop S DF i currentC data =
     (if real i \<le> S
      then (let c = jdiv currentC (Fin DF) in dilution_loop S DF (i + 1) c (data @ [(i, c)]))
      else data)"
  by pat_completeness auto
termination
proof (relation "measure (\<lambda>(S, DF, i, currentC, data). nat \<lfloor>S\<rfloor> + 1 - i)")
  show "wf (measure (\<lambda>(S, DF, i, currentC, data). nat \<lfloor>S\<rfloor> + 1 - i))"
    by simp
next
  fix S DF :: real and i :: nat and currentC c :: jsnum and data :: "(nat \<times> jsnum) list"
  assume "real i \<le> S"
  then have "int i \<le> \<lfloor>S\<rfloor>"
    by (simp add: le_floor_iff)
  then have "i \<le> nat \<lfloor>S\<rfloor>"
    by linarith
  then show "((S, DF, i + 1, c, data @ [(i, c)]), (S, DF, i, currentC, data))
      \<in> measure (\<lambda>(S, DF, i, currentC, data). nat \<lfloor>S\<rfloor> + 1 - i)"
    by simp
qed

declare dilution_loop.simps [simp del]

definition dilutionData :: "field \<Rightarrow> field \<Rightarrow> field \<Rightarrow> (nat \<times> jsnum) list" where
  "dilutionData startConc dilutionFactor steps =
     (let C0 = safeParse startConc; DF = safeParse dilutionFactor; S = safeParse steps
      in if C0 \<le> 0 \<or> DF \<le> 1 \<or> S \<le> 0 \<or> 10 < S then []
         else dilution_loop S DF 1 (Fin C0) [(0, Fin C0)])"

text \<open>
  While the sequence is not empty the screen draws a chart of it, and the axes of the
  chart read \<open>styles.darkLabel.color\<close>. The style object that \<open>getStyles\<close> builds has
  no key \<open>darkLabel\<close>, so drawing raises a TypeError and the screen is gone before
  \<open>calculate\<close> can be pressed. With an empty sequence nothing is drawn.
\<close>

definition dilution_render :: "(nat \<times> jsnum) list \<Rightarrow> js_error + unit" where
  "dilution_render data = (if 0 < length data then Inl TypeError else Inr ())"

text \<open>The body of \<open>calculate\<close>, for the sequence on the screen.\<close>

definition dilution_handler :: "(nat \<times> jsnum) list \<Rightarrow> history_item option" where
  "dilution_handler data =
     (if 0 < length data
      then (let finalConc = snd (last data)
            in Some \<lparr>item_type = ''Serial Dilution'',
                      item_result = DilutionResult finalConc data\<rparr>)
      else None)"

definition dilution_calculate :: "field \<Rightarrow> field \<Rightarrow> field \<Rightarrow> js_error + history_item option" where
  "dilution_calculate startConc dilutionFactor steps =
     (let data = dilutionData startConc dilutionFactor steps
      in case dilution_render data of
           Inl e \<Rightarrow> Inl e
         | Inr _ \<Rightarrow> Inr (dilution_handler data))"

subsection \<open>Buffer\<close>

text \<open>
  \<open>Math.pow(10, diff)\<close> on a finite exponent. Here a moderate input leaves the range
  of the doubles on either side: the largest double is just below \<open>2^1024\<close>, and a
  power of at most \<open>2^-1075\<close>, half the smallest positive double, rounds to 0. Both are
  written out; a result in between is kept exact.
\<close>

definition pow10 :: "real \<Rightarrow> jsnum" where
  "pow10 diff =
     (if 2 ^ 1024 \<le> 10 powr diff then PInf
      else if 10 powr diff \<le> 1 / 2 ^ 1075 then Fin 0
      else Fin (10 powr diff))"

definition X_Salt :: "jsnum \<Rightarrow> jsnum" where
  "X_Salt r = jdiv r (jadd (Fin 1) r)"

definition X_Acid :: "jsnum \<Rightarrow> jsnum" where
  "X_Acid r = jdiv (Fin 1) (jadd (Fin 1) r)"

definition buffer :: "field \<Rightarrow> field \<Rightarrow> field \<Rightarrow> field \<Rightarrow> field \<Rightarrow> field \<Rightarrow> buffer_result option" where
  "buffer pH pKa mwAcid mwSalt totalVol totalConc =
     (let pHVal = safeParse pH; pKaVal = safeParse pKa; MWa = safeParse mwAcid;
          MWs = safeParse mwSalt; V = safeParse totalVol; C = safeParse totalConc
      in if pKaVal \<le> 0 \<or> V \<le> 0 \<or> C \<le> 0 \<or> MWa \<le> 0 \<or> MWs \<le> 0 then None
         else
           let diff = pHVal - pKaVal;
               r = pow10 diff;
               V_L = convertUnit (Fin V) ''mL'' ''L'' ''VOLUME'';
               acid = jmul (jmul (jmul (X_Acid r) (Fin C)) V_L) (Fin MWa);
               salt = jmul (jmul (jmul (X_Salt r) (Fin C)) V_L) (Fin MWs)
           in Some \<lparr>ratio = r, acidMass = acid, saltMass = salt\<rparr>)"

definition buffer_calculate :: "field \<Rightarrow> field \<Rightarrow> field \<Rightarrow> field \<Rightarrow> field \<Rightarrow> field \<Rightarrow> history_item option" where
  "buffer_calculate pH pKa mwAcid mwSalt totalVol totalConc =
     (case buffer pH pKa mwAcid mwSalt totalVol totalConc of
        None \<Rightarrow> None
      | Some r \<Rightarrow>
          if jgt0 (acidMass r) \<and> jgt0 (saltMass r)
          then Some \<lparr>item_type = ''Buffer Calculation'', item_result = BufferResult r\<rparr>
          else None)"

text \<open>
  The same computation in double precision, with its local values: the difference, the
  power, the sum \<open>1 + ratio\<close> and every quotient and product are rounded.
  \<open>Math.pow\<close> is taken to return the double nearest to the power, or \<open>Infinity\<close>
  beyond the range; of an infinite exponent it is \<open>Infinity\<close> or 0. What is proved of
  the fractions for every input uses no more of it than that its result is \<open>Infinity\<close>
  or a double that is not negative.
\<close>

fun Math_pow10 :: "jsnum \<Rightarrow> jsnum" where
  "Math_pow10 (Fin d) = rnd (Fin (10 powr d))"
| "Math_pow10 PInf = PInf"
| "Math_pow10 NInf = Fin 0"
| "Math_pow10 NaN = NaN"

record buffer_locals =
  local_ratio :: jsnum
  local_X_Salt :: jsnum
  local_X_Acid :: jsnum
  local_acidMass :: jsnum
  local_saltMass :: jsnum

definition buffer_double :: "field \<Rightarrow> field \<Rightarrow> field \<Rightarrow> field \<Rightarrow> field \<Rightarrow> field \<Rightarrow> buffer_locals option" where
  "buffer_double pH pKa mwAcid mwSalt totalVol totalConc =
     (let pHVal = safeParse pH; pKaVal = safeParse pKa; MWa = safeParse mwAcid;
          MWs = safeParse mwSalt; V = safeParse totalVol; C = safeParse totalConc
      in if pKaVal \<le> 0 \<or> V \<le> 0 \<or> C \<le> 0 \<or> MWa \<le> 0 \<or> MWs \<le> 0 then None
         else
           let diff = rnd (Fin (pHVal - pKaVal));
               r = Math_pow10 diff;
               xs = rnd (jdiv r (rnd (jadd (Fin 1) r)));
               xa = rnd (jdiv (Fin 1) (rnd (jadd (Fin 1) r)));
               V_L = convertUnit_double (Fin V) ''mL'' ''L'' ''VOLUME'';
               acid = rnd (jmul (rnd (jmul (rnd (jmul xa (Fin C))) V_L)) (Fin MWa));
               salt = rnd (jmul (rnd (jmul (rnd (jmul xs (Fin C))) V_L)) (Fin MWs))
           in Some \<lparr>local_ratio = r, local_X_Salt = xs, local_X_Acid = xa,
                    local_acidMass = acid, local_saltMass = salt\<rparr>)"

subsection \<open>Unit conversion\<close>

definition conversion :: "field \<Rightarrow> string \<Rightarrow> string \<Rightarrow> string \<Rightarrow> jsnum" where
  "conversion val fromUnit toUnit category =
     (let v = safeParse val
      in if v = 0 \<or> fromUnit = toUnit then Fin v
         else convertUnit (Fin v) fromUnit toUnit category)"

definition conversion_calculate :: "field \<Rightarrow> string \<Rightarrow> string \<Rightarrow> string \<Rightarrow> history_item option" where
  "conversion_calculate val fromUnit toUnit category =
     (let result = conversion val fromUnit toUnit category
      in if jne0 result
         then Some \<lparr>item_type = ''Unit Conversion'', item_result = ConversionResult result\<rparr>
         else None)"

section \<open>Properties of the registry\<close>

lemma UNITS_MAP_TEMP: "UNITS_MAP ''TEMP'' = Some TEMP"
  by (simp add: UNITS_MAP_def)

text \<open>
  C10. In the temperature family a target unit that is none of \<open>C\<close>, \<open>F\<close>, \<open>K\<close> is not
  rejected and is not a no-op: the result is the value brought to degrees Celsius from
  \<open>fromUnit\<close>.
\<close>

theorem convertUnit_TEMP_unlisted_target:
  "toUnit \<noteq> ''C'' \<Longrightarrow> toUnit \<noteq> ''F'' \<Longrightarrow> toUnit \<noteq> ''K'' \<Longrightarrow>
   convertUnit val fromUnit toUnit ''TEMP'' =
     (if fromUnit = ''F'' then jdiv (jmul (jsub val (Fin 32)) (Fin 5)) (Fin 9)
      else if fromUnit = ''K'' then jsub val (Fin (27315 / 100))
      else val)"
  by (simp add: convertUnit_def UNITS_MAP_TEMP)

theorem convertUnit_TEMP_unlisted_target_witness:
  "''R'' \<noteq> ''C'' \<and> ''R'' \<noteq> ''F'' \<and> ''R'' \<noteq> ''K'' \<and>
   convertUnit (Fin 212) ''F'' ''R'' ''TEMP'' = Fin 100 \<and>
   convertUnit (Fin 212) ''F'' ''R'' ''TEMP'' \<noteq> Fin 212"
  using convertUnit_TEMP_unlisted_target [of "''R''" "Fin 212" "''F''"]
  by (simp add: jsub_def)

section \<open>The dose calculator\<close>

lemma jdiv_NaN_right: "jdiv x NaN = NaN"
  by (cases x) simp_all

lemma jmul_NaN_right: "jmul x NaN = NaN"
  by (cases x) simp_all

lemma UNITS_MAP_MASS: "UNITS_MAP ''MASS'' = Some MASS"
  by (simp add: UNITS_MAP_def)

lemma MASS_mg_kg: "MASS ''mg/kg'' = None"
  by (simp add: MASS_def)

text \<open>The mass table has no key \<open>mg/kg\<close>, so a conversion to it divides by
  \<open>undefined\<close>, whatever the value and the source unit.\<close>

lemma convertUnit_to_mg_kg: "convertUnit val u ''mg/kg'' ''MASS'' = NaN"
  by (simp add: convertUnit_def UNITS_MAP_MASS MASS_mg_kg jdiv_NaN_right)

lemma dose_total_NaN:
  assumes "dose weight dose_amount doseUnit conc concUnit time = Some r"
  shows "totalDoseMg r = NaN \<and> volNeeded r = NaN"
  using assms
  by (auto simp: dose_def Let_def convertUnit_to_mg_kg jmul_NaN_right split: if_splits)

lemma dose_calculate_never:
  "dose_calculate weight dose_amount doseUnit conc concUnit time = None"
  by (auto simp: dose_calculate_def dest: dose_total_NaN split: option.splits)

text \<open>
  C1. Weight 10 kg, dose 5 with the unit \<open>mg/kg\<close>, stock concentration 50 mg/mL and
  infusion time 0 should give a total dose of 50 mg and a volume of 1 mL. The calculator
  returns NaN for both, with the two rates 0, and \<open>calculate\<close> saves nothing: the dose is
  converted to the unit \<open>mg/kg\<close>, which the mass table does not have.
\<close>

theorem dose_scenario_total_is_NaN:
  "dose (Fin 10) (Fin 5) ''mg/kg'' (Fin 50) ''mg/mL'' (Fin 0) =
     Some \<lparr>totalDoseMg = NaN, volNeeded = NaN, mlHrRate = Fin 0, dropRate = Fin 0\<rparr> \<and>
   dose_calculate (Fin 10) (Fin 5) ''mg/kg'' (Fin 50) ''mg/mL'' (Fin 0) = None"
  by (simp add: dose_def dose_calculate_def convertUnit_to_mg_kg jmul_NaN_right Let_def)

section \<open>The solution calculator\<close>

lemma UNITS_MAP_VOLUME: "UNITS_MAP ''VOLUME'' = Some VOLUME"
  by (simp add: UNITS_MAP_def)

text \<open>
  C2. With the unit \<open>% w/v\<close>, concentration 5 and volume 100 mL the mass is
  \<open>5 * 100 / 100 = 5\<close> g and the molecular weight is not needed. The calculator tests
  the molecular weight before it looks at the unit: with an empty molecular weight,
  which parses to 0, the result is 0 and nothing is saved; with molecular weight 1 the
  same inputs give 5.
\<close>

theorem solution_percent_wv_without_MW:
  "solution (Fin 0) (Fin 5) ''% w/v'' (Fin 100) ''mL'' = Fin 0 \<and>
   solution_calculate (Fin 0) (Fin 5) ''% w/v'' (Fin 100) ''mL'' = None \<and>
   solution (Fin 1) (Fin 5) ''% w/v'' (Fin 100) ''mL'' = Fin 5"
  by (simp add: solution_def solution_calculate_def convertUnit_def UNITS_MAP_VOLUME
      VOLUME_def Let_def)

section \<open>The conversion calculator\<close>

text \<open>
  C3. A value that parses to 0 is never saved. Equal units do not prevent saving: the
  result is then the parsed value itself, no conversion is applied, and the record is
  saved exactly when that value is not 0.
\<close>

theorem conversion_record_rule:
  "(safeParse val = 0 \<longrightarrow> conversion_calculate val fromUnit toUnit category = None) \<and>
   (fromUnit = toUnit \<longrightarrow>
      conversion val fromUnit toUnit category = Fin (safeParse val) \<and>
      (conversion_calculate val fromUnit toUnit category = None) = (safeParse val = 0))"
  by (simp add: conversion_calculate_def conversion_def Let_def)

theorem conversion_record_rule_witness:
  "safeParse NaN = 0 \<and> ''mg'' = ''mg'' \<and>
   conversion_calculate NaN ''mg'' ''mg'' ''MASS'' = None \<and>
   conversion NaN ''mg'' ''mg'' ''MASS'' = Fin 0"
  using conversion_record_rule [of NaN "''mg''" "''mg''" "''MASS''"]
  by simp

text \<open>The value 5 converted from grams to grams is saved, with the result 5.\<close>

theorem conversion_same_unit_is_saved:
  "conversion_calculate (Fin 5) ''g'' ''g'' ''MASS'' =
     Some \<lparr>item_type = ''Unit Conversion'', item_result = ConversionResult (Fin 5)\<rparr>"
  by (simp add: conversion_calculate_def conversion_def)

section \<open>The keystroke filter\<close>

text \<open>The filter lets only digits and points through.\<close>

lemma set_tl_subset: "set (tl xs) \<subseteq> set xs"
  by (cases xs) auto

lemma set_before_last_point: "set (before_last_point cs) \<subseteq> set cs"
proof -
  have "set (tl (dropWhile (\<lambda>c. c \<noteq> CHR ''.'') (rev cs))) \<subseteq>
      set (dropWhile (\<lambda>c. c \<noteq> CHR ''.'') (rev cs))"
    by (rule set_tl_subset)
  also have "\<dots> \<subseteq> set (rev cs)"
    by (rule subsetI) (erule set_dropWhileD)
  finally have "set (tl (dropWhile (\<lambda>c. c \<noteq> CHR ''.'') (rev cs))) \<subseteq> set cs"
    by (simp only: set_rev)
  then show ?thesis
    by (simp only: before_last_point_def set_rev)
qed

lemma set_after_last_point: "set (after_last_point cs) \<subseteq> set cs"
proof -
  have "set (takeWhile (\<lambda>c. c \<noteq> CHR ''.'') (rev cs)) \<subseteq> set (rev cs)"
    by (rule subsetI) (erule set_takeWhileD [THEN conjunct1])
  then show ?thesis
    by (simp only: after_last_point_def set_rev)
qed

lemma set_replace_points: "set (replace_points cs) \<subseteq> set cs"
proof (induction cs rule: replace_points.induct)
  case 1
  show ?case by (simp add: replace_points.simps)
next
  case (2 c cs)
  show ?case
  proof (cases "c = CHR ''.'' \<and> CHR ''.'' \<in> set cs")
    case True
    then have "set (replace_points (after_last_point cs)) \<subseteq> set (after_last_point cs)"
      using "2.IH"(1) by blast
    then have rest: "set (replace_points (after_last_point cs)) \<subseteq> set cs"
      using set_after_last_point [of cs] by (rule subset_trans)
    have eq: "replace_points (c # cs) =
        c # before_last_point cs @ replace_points (after_last_point cs)"
      using True by (simp add: replace_points.simps)
    have "set (c # before_last_point cs @ replace_points (after_last_point cs)) \<subseteq>
        insert c (set cs)"
      using rest set_before_last_point [of cs] by auto
    then show ?thesis
      by (simp only: eq list.set)
  next
    case False
    then have rest: "set (replace_points cs) \<subseteq> set cs"
      using "2.IH"(2) by blast
    have eq: "replace_points (c # cs) = c # replace_points cs"
      using False by (auto simp: replace_points.simps)
    have "set (c # replace_points cs) \<subseteq> insert c (set cs)"
      using rest by auto
    then show ?thesis
      by (simp only: eq list.set)
  qed
qed

lemma filterNumeric_chars: "set (filterNumeric s) \<subseteq> set ''0123456789.''"
proof -
  have "set (keep_numeric s) \<subseteq> set ''0123456789.''"
    unfolding keep_numeric_def by (rule subsetI) (simp only: set_filter mem_Collect_eq)
  with set_replace_points [of "keep_numeric s"] show ?thesis
    unfolding filterNumeric_def by (rule subset_trans)
qed

text \<open>
  C5. Filtering a filtered text should change nothing and leave at most one point. The
  second replacement removes only the last point of a text with several: \<open>1.2.3.4\<close>
  becomes \<open>1.2.34\<close>, which still has two points, and filtering that gives \<open>1.234\<close>.
\<close>

theorem filterNumeric_twice_differs:
  "filterNumeric ''1.2.3.4'' = ''1.2.34'' \<and>
   filterNumeric (filterNumeric ''1.2.3.4'') = ''1.234'' \<and>
   filterNumeric (filterNumeric ''1.2.3.4'') \<noteq> filterNumeric ''1.2.3.4'' \<and>
   length (filter (\<lambda>c. c = CHR ''.'') (filterNumeric ''1.2.3.4'')) = 2"
  by (simp add: filterNumeric_def keep_numeric_def before_last_point_def
      after_last_point_def)

section \<open>The serial dilution\<close>

lemma loop_test_iff: "1 \<le> i \<Longrightarrow> (real i \<le> S) = (i < Suc (nat \<lfloor>S\<rfloor>))"
proof -
  assume i: "1 \<le> i"
  have "(real i \<le> S) = (int i \<le> \<lfloor>S\<rfloor>)"
    by (simp add: le_floor_iff)
  also have "\<dots> = (i \<le> nat \<lfloor>S\<rfloor>)"
    using i by linarith
  finally show ?thesis
    by (simp add: less_Suc_eq_le)
qed

lemma dilution_loop_closed:
  "1 \<le> i \<Longrightarrow> DF \<noteq> 0 \<Longrightarrow> cur = Fin c \<Longrightarrow>
   dilution_loop S DF i cur data =
     data @ map (\<lambda>k. (k, Fin (c / DF ^ (Suc k - i)))) [i ..< Suc (nat \<lfloor>S\<rfloor>)]"
proof (induction S DF i cur data arbitrary: c rule: dilution_loop.induct)
  case (1 S DF i currentC data)
  show ?case
  proof (cases "real i \<le> S")
    case True
    then have lt: "i < Suc (nat \<lfloor>S\<rfloor>)"
      using "1.prems"(1) by (simp add: loop_test_iff)
    have step: "jdiv currentC (Fin DF) = Fin (c / DF)"
      using "1.prems" by simp
    have ih: "dilution_loop S DF (i + 1) (Fin (c / DF)) (data @ [(i, Fin (c / DF))]) =
        (data @ [(i, Fin (c / DF))]) @
        map (\<lambda>k. (k, Fin (c / DF / DF ^ (Suc k - (i + 1))))) [i + 1 ..< Suc (nat \<lfloor>S\<rfloor>)]"
      using "1.IH" [OF True step [symmetric], of "c / DF"] "1.prems" step by simp
    have tail: "map (\<lambda>k. (k, Fin (c / DF / DF ^ (Suc k - (i + 1))))) [i + 1 ..< Suc (nat \<lfloor>S\<rfloor>)] =
        map (\<lambda>k. (k, Fin (c / DF ^ (Suc k - i)))) [i + 1 ..< Suc (nat \<lfloor>S\<rfloor>)]"
    proof (rule map_cong [OF refl])
      fix k assume "k \<in> set [i + 1 ..< Suc (nat \<lfloor>S\<rfloor>)]"
      then have "Suc k - i = Suc (Suc k - (i + 1))"
        by auto
      then show "(k, Fin (c / DF / DF ^ (Suc k - (i + 1)))) = (k, Fin (c / DF ^ (Suc k - i)))"
        by simp
    qed
    have "dilution_loop S DF i currentC data =
        dilution_loop S DF (i + 1) (Fin (c / DF)) (data @ [(i, Fin (c / DF))])"
      using True step by (subst dilution_loop.simps) (simp add: Let_def)
    also have "\<dots> = data @ (i, Fin (c / DF ^ (Suc i - i))) #
        map (\<lambda>k. (k, Fin (c / DF ^ (Suc k - i)))) [i + 1 ..< Suc (nat \<lfloor>S\<rfloor>)]"
      by (simp only: ih tail) simp
    also have "\<dots> = data @ map (\<lambda>k. (k, Fin (c / DF ^ (Suc k - i)))) [i ..< Suc (nat \<lfloor>S\<rfloor>)]"
      by (simp del: upt_Suc add: upt_conv_Cons [OF lt])
    finally show ?thesis .
  next
    case False
    then have "\<not> i < Suc (nat \<lfloor>S\<rfloor>)"
      using "1.prems"(1) by (simp add: loop_test_iff)
    then show ?thesis
      using False by (subst dilution_loop.simps) simp
  qed
qed

lemma dilutionData_valid:
  assumes "0 < safeParse startConc" "1 < safeParse dilutionFactor"
    "0 < safeParse steps" "safeParse steps \<le> 10"
  shows "dilutionData startConc dilutionFactor steps =
     map (\<lambda>k. (k, Fin (safeParse startConc / safeParse dilutionFactor ^ k)))
       [0 ..< Suc (nat \<lfloor>safeParse steps\<rfloor>)]"
proof -
  let ?C0 = "safeParse startConc" and ?DF = "safeParse dilutionFactor"
    and ?n = "nat \<lfloor>safeParse steps\<rfloor>"
  have "dilutionData startConc dilutionFactor steps =
      dilution_loop (safeParse steps) ?DF 1 (Fin ?C0) [(0, Fin ?C0)]"
    using assms by (simp add: dilutionData_def Let_def)
  also have "\<dots> = [(0, Fin ?C0)] @ map (\<lambda>k. (k, Fin (?C0 / ?DF ^ (Suc k - 1)))) [1 ..< Suc ?n]"
    using assms by (intro dilution_loop_closed) auto
  also have "\<dots> = map (\<lambda>k. (k, Fin (?C0 / ?DF ^ k))) (0 # [Suc 0 ..< Suc ?n])"
    by (simp del: upt_Suc)
  also have "0 # [Suc 0 ..< Suc ?n] = [0 ..< Suc ?n]"
    by (rule upt_conv_Cons [symmetric]) simp
  finally show ?thesis .
qed


text \<open>The sequence is drawn as soon as it is not empty, and drawing it raises.\<close>

lemma dilution_calculate_valid_raises:
  assumes "0 < safeParse startConc" "1 < safeParse dilutionFactor"
    "0 < safeParse steps" "safeParse steps \<le> 10"
  shows "dilution_calculate startConc dilutionFactor steps = Inl TypeError"
proof -
  have "0 < length (dilutionData startConc dilutionFactor steps)"
    by (simp add: dilutionData_valid [OF assms])
  then show ?thesis
    by (simp add: dilution_calculate_def dilution_render_def Let_def)
qed




section \<open>The buffer calculator\<close>

lemma pow10_minus_one: "pow10 (- 1) = Fin (1 / 10)"
  by (simp add: pow10_def powr_neg_one)

lemma buffer_pH_0:
  "buffer (Fin 0) (Fin 1) (Fin 1) (Fin 1) (Fin 1000) (Fin 1) =
     Some \<lparr>ratio = Fin (1 / 10), acidMass = Fin (10 / 11), saltMass = Fin (1 / 11)\<rparr>"
  by (simp add: buffer_def pow10_minus_one X_Acid_def X_Salt_def
      convertUnit_def UNITS_MAP_VOLUME VOLUME_def Let_def)

section \<open>Incomplete input\<close>

text \<open>
  C4. A guarded field that parses to a value that is not positive, or does not parse at
  all and so reads as 0, leaves a calculator without result and without record: weight,
  dose and concentration in the dose calculator; molecular weight, concentration and
  volume in the solution calculator; start concentration, factor and step count in the
  dilution; pKa, the two molecular weights, volume and concentration in the buffer
  calculator. The target pH is not among the guarded fields. The conversion saves nothing
  for a value that parses to 0. All of these are total functions: nothing is raised.
\<close>

theorem incomplete_input_no_record:
  "(safeParse weight \<le> 0 \<or> safeParse dose_amount \<le> 0 \<or> safeParse conc \<le> 0 \<longrightarrow>
      dose weight dose_amount doseUnit conc concUnit time = None \<and>
      dose_calculate weight dose_amount doseUnit conc concUnit time = None) \<and>
   (safeParse mw \<le> 0 \<or> safeParse sconc \<le> 0 \<or> safeParse volume \<le> 0 \<longrightarrow>
      solution mw sconc sconcUnit volume volUnit = Fin 0 \<and>
      solution_calculate mw sconc sconcUnit volume volUnit = None) \<and>
   (safeParse startConc \<le> 0 \<or> safeParse dilutionFactor \<le> 0 \<or> safeParse steps \<le> 0 \<longrightarrow>
      dilutionData startConc dilutionFactor steps = [] \<and>
      dilution_calculate startConc dilutionFactor steps = Inr None) \<and>
   (safeParse pKa \<le> 0 \<or> safeParse mwAcid \<le> 0 \<or> safeParse mwSalt \<le> 0 \<or>
    safeParse totalVol \<le> 0 \<or> safeParse totalConc \<le> 0 \<longrightarrow>
      buffer pH pKa mwAcid mwSalt totalVol totalConc = None \<and>
      buffer_calculate pH pKa mwAcid mwSalt totalVol totalConc = None) \<and>
   (safeParse val = 0 \<longrightarrow>
      conversion val fromUnit toUnit category = Fin 0 \<and>
      conversion_calculate val fromUnit toUnit category = None)"
proof (intro conjI impI)
  assume "safeParse weight \<le> 0 \<or> safeParse dose_amount \<le> 0 \<or> safeParse conc \<le> 0"
  then show "dose weight dose_amount doseUnit conc concUnit time = None"
    by (auto simp: dose_def)
  then show "dose_calculate weight dose_amount doseUnit conc concUnit time = None"
    by (simp add: dose_calculate_def)
next
  assume "safeParse mw \<le> 0 \<or> safeParse sconc \<le> 0 \<or> safeParse volume \<le> 0"
  then show "solution mw sconc sconcUnit volume volUnit = Fin 0"
    by (auto simp: solution_def)
  then show "solution_calculate mw sconc sconcUnit volume volUnit = None"
    by (simp add: solution_calculate_def)
next
  assume "safeParse startConc \<le> 0 \<or> safeParse dilutionFactor \<le> 0 \<or> safeParse steps \<le> 0"
  then show "dilutionData startConc dilutionFactor steps = []"
    by (auto simp: dilutionData_def)
  then show "dilution_calculate startConc dilutionFactor steps = Inr None"
    by (simp add: dilution_calculate_def dilution_render_def dilution_handler_def)
next
  assume "safeParse pKa \<le> 0 \<or> safeParse mwAcid \<le> 0 \<or> safeParse mwSalt \<le> 0 \<or>
    safeParse totalVol \<le> 0 \<or> safeParse totalConc \<le> 0"
  then show "buffer pH pKa mwAcid mwSalt totalVol totalConc = None"
    by (auto simp: buffer_def)
  then show "buffer_calculate pH pKa mwAcid mwSalt totalVol totalConc = None"
    by (simp add: buffer_calculate_def)
next
  assume "safeParse val = 0"
  then show "conversion val fromUnit toUnit category = Fin 0"
    by (simp add: conversion_def)
  then show "conversion_calculate val fromUnit toUnit category = None"
    by (simp add: conversion_calculate_def)
qed

theorem incomplete_input_no_record_witness:
  "dose NaN (Fin 5) ''mg'' (Fin 50) ''mg/mL'' (Fin 0) = None \<and>
   solution (Fin 58) (Fin 0) ''M'' (Fin 1000) ''mL'' = Fin 0 \<and>
   dilution_calculate (Fin 1) (Fin 10) (Fin 0) = Inr None \<and>
   buffer_calculate (Fin 7) (Fin 0) (Fin 1) (Fin 1) (Fin 1000) (Fin 1) = None \<and>
   conversion_calculate PInf ''g'' ''mg'' ''MASS'' = None"
  using incomplete_input_no_record [of NaN "Fin 5" "Fin 50" "''mg''" "''mg/mL''" "Fin 0"
      "Fin 58" "Fin 0" "Fin 1000" "''M''" "''mL''" "Fin 1" "Fin 10" "Fin 0"
      "Fin 0" "Fin 1" "Fin 1" "Fin 1000" "Fin 1" "Fin 7" PInf "''g''" "''mg''" "''MASS''"]
  by simp

text \<open>
  With an empty pH field, which parses to 0, and every guarded field positive the buffer
  calculator computes the ratio \<open>10^(0 - 1)\<close> and saves the record. The conversion of
  a negative value, which \<open>safeParse\<close> accepts, is saved as well.
\<close>

theorem buffer_pH_not_guarded:
  "buffer_calculate (Fin 0) (Fin 1) (Fin 1) (Fin 1) (Fin 1000) (Fin 1) =
     Some \<lparr>item_type = ''Buffer Calculation'',
           item_result = BufferResult
             \<lparr>ratio = Fin (1 / 10), acidMass = Fin (10 / 11), saltMass = Fin (1 / 11)\<rparr>\<rparr> \<and>
   conversion_calculate (Fin (- 40)) ''C'' ''F'' ''TEMP'' =
     Some \<lparr>item_type = ''Unit Conversion'', item_result = ConversionResult (Fin (- 40))\<rparr>"
  by (simp add: buffer_calculate_def buffer_pH_0 convertUnit_def UNITS_MAP_TEMP TEMP_F_def
      conversion_calculate_def conversion_def Let_def)

section \<open>Rounding to double precision\<close>

lemma pow2_powr: "pow2 k = 2 powr (of_int k)"
proof (cases "0 \<le> k")
  case True
  then have "2 powr (of_int k) = (2::real) powr (real (nat k))"
    by simp
  also have "\<dots> = 2 ^ nat k"
    by (simp add: powr_realpow)
  finally show ?thesis
    using True by (simp add: pow2_def)
next
  case False
  then have "real_of_int k = - real (nat (- k))"
    by simp
  then have "2 powr (of_int k) = (2::real) powr (- real (nat (- k)))"
    by (simp only:)
  also have "\<dots> = 1 / 2 ^ nat (- k)"
    by (simp only: powr_minus powr_realpow [OF zero_less_numeral] inverse_eq_divide)
  finally show ?thesis
    using False by (simp only: pow2_def if_False)
qed

text \<open>Rounding a value whose binary exponent is known.\<close>

lemma to_double_eval:
  assumes "pow2 e \<le> \<bar>x\<bar>" "\<bar>x\<bar> < pow2 (e + 1)" "- 1022 \<le> e"
  shows "to_double x = of_int (round_ties_even (x / pow2 (e - 52))) * pow2 (e - 52)"
proof -
  have pos: "0 < pow2 e"
    by (simp only: pow2_powr) simp
  then have x: "0 < \<bar>x\<bar>"
    using assms(1) by linarith
  have "2 powr (of_int e) \<le> \<bar>x\<bar> \<and> \<bar>x\<bar> < 2 powr (of_int e + 1)"
    using assms(1,2) by (simp only: pow2_powr of_int_add of_int_1)
  then have "\<lfloor>log 2 \<bar>x\<bar>\<rfloor> = e"
    using x by (subst floor_log_eq_powr_iff) simp_all
  moreover have "x \<noteq> 0"
    using x by simp
  moreover have "max e (- 1022) = e"
    using assms(3) by simp
  ultimately show ?thesis
    by (simp only: to_double_def Let_def if_False)
qed


lemma rnd_eval:
  assumes "to_double a = d" "\<bar>d\<bar> < 2 ^ 1024"
  shows "rnd (Fin a) = Fin d"
  using assms by (simp add: rnd.simps Let_def)

lemma jsub_Fin: "jsub (Fin a) (Fin b) = Fin (a - b)"
  by (simp add: jsub_def)

lemma jadd_Fin: "jadd (Fin a) (Fin b) = Fin (a + b)"
  by simp

lemma jmul_Fin: "jmul (Fin a) (Fin b) = Fin (a * b)"
  by simp

lemma jdiv_Fin: "b \<noteq> 0 \<Longrightarrow> jdiv (Fin a) (Fin b) = Fin (a / b)"
  by simp

lemma jdiv_Fin_9: "jdiv (Fin a) (Fin 9) = Fin (a / 9)"
  by simp

lemma jdiv_Fin_5: "jdiv (Fin a) (Fin 5) = Fin (a / 5)"
  by simp

section \<open>The formatter\<close>

lemma round_fixed_grid: "\<exists>n::int. round_fixed x d = of_int n / 10 ^ d"
proof -
  have "round_fixed x d = of_int (\<lfloor>sgn x\<rfloor> * \<lfloor>\<bar>x\<bar> * 10 ^ d + 1 / 2\<rfloor>) / 10 ^ d"
    by (simp add: round_fixed_def sgn_if)
  then show ?thesis ..
qed

lemma round_fixed_near: "\<bar>round_fixed x d - x\<bar> \<le> 1 / (2 * 10 ^ d)"
proof -
  let ?p = "(10::real) ^ d"
  let ?m = "\<lfloor>\<bar>x\<bar> * ?p + 1 / 2\<rfloor>"
  have p: "0 < ?p" by simp
  have up: "of_int ?m \<le> \<bar>x\<bar> * ?p + 1 / 2"
    by (rule of_int_floor_le)
  have lo: "\<bar>x\<bar> * ?p + 1 / 2 < of_int ?m + 1"
    by linarith
  have h: "\<bar>of_int ?m - \<bar>x\<bar> * ?p\<bar> \<le> 1 / 2"
    using up lo by linarith
  have "of_int ?m / ?p - \<bar>x\<bar> = (of_int ?m - \<bar>x\<bar> * ?p) / ?p"
    by (simp add: diff_divide_distrib)
  then have "\<bar>of_int ?m / ?p - \<bar>x\<bar>\<bar> = \<bar>of_int ?m - \<bar>x\<bar> * ?p\<bar> / ?p"
    by (simp only: abs_divide) simp
  also have "\<dots> \<le> (1 / 2) / ?p"
    using h p by (intro divide_right_mono) simp_all
  finally have near: "\<bar>of_int ?m / ?p - \<bar>x\<bar>\<bar> \<le> 1 / (2 * ?p)"
    by simp
  have "sgn x * \<bar>x\<bar> = x"
    by (rule sgn_mult_abs)
  then have "round_fixed x d - x = sgn x * (of_int ?m / ?p - \<bar>x\<bar>)"
    by (simp add: round_fixed_def right_diff_distrib)
  then have "\<bar>round_fixed x d - x\<bar> = \<bar>sgn x\<bar> * \<bar>of_int ?m / ?p - \<bar>x\<bar>\<bar>"
    by (simp add: abs_mult)
  also have "\<dots> \<le> \<bar>of_int ?m / ?p - \<bar>x\<bar>\<bar>"
    by (simp add: sgn_if)
  finally show ?thesis
    using near by linarith
qed

lemma double_six_fifths: "to_double (6 / 5) = 5404319552844595 / 2 ^ 52"
  by (subst to_double_eval [where e = 0]) (simp_all add: pow2_def round_ties_even_def)

lemma double_313: "to_double (313 / 10000) = 4510805386774289 / 2 ^ 57"
  by (subst to_double_eval [where e = "- 5"]) (simp_all add: pow2_def round_ties_even_def)

lemma round_fixed_32: "round_fixed (1 / 32) 4 = 313 / 10000"
  by (simp add: round_fixed_def)

text \<open>
  C6. For a digit count \<open>d\<close> from 0 to 100: \<open>undefined\<close>, \<open>null\<close> and NaN give the dash
  string; a finite value that is not 0 and of magnitude below \<open>10^-4\<close> gives the string
  of \<open>toExponential\<close> with \<open>d\<close> digits; every other value gives a number, not a string.
  For a finite value below \<open>10^21\<close> in magnitude that number is the double nearest to a
  decimal with \<open>d\<close> fractional digits, and the decimal is at most half a unit of its last
  digit from the value; from \<open>10^21\<close> on, and for an infinity, it is the value itself.
  The result is a string exactly in the first two cases. Printed, a number shows no
  trailing zeros.
\<close>

theorem fmt_cases:
  "0 \<le> d \<and> d \<le> 100 \<longrightarrow>
   fmt Undefined d = Inr Dash \<and> fmt Null d = Inr Dash \<and> fmt (Num NaN) d = Inr Dash \<and>
   fmt (Num PInf) d = Inr (Rounded PInf) \<and> fmt (Num NInf) d = Inr (Rounded NInf) \<and>
   (x \<noteq> 0 \<and> \<bar>x\<bar> < 1 / 10000 \<longrightarrow> fmt (Num (Fin x)) d = Inr (Exponential x d)) \<and>
   (\<not> (x \<noteq> 0 \<and> \<bar>x\<bar> < 1 / 10000) \<longrightarrow>
      (\<exists>r. fmt (Num (Fin x)) d = Inr (Rounded (Fin r)) \<and>
           (\<bar>x\<bar> < 10 ^ 21 \<longrightarrow>
              r = to_double (round_fixed x (nat d)) \<and>
              (\<exists>n::int. round_fixed x (nat d) = of_int n / 10 ^ nat d) \<and>
              \<bar>round_fixed x (nat d) - x\<bar> \<le> 1 / (2 * 10 ^ nat d)) \<and>
           (10 ^ 21 \<le> \<bar>x\<bar> \<longrightarrow> r = x))) \<and>
   (\<exists>v. fmt (Num (Fin x)) d = Inr v \<and> is_string v = (x \<noteq> 0 \<and> \<bar>x\<bar> < 1 / 10000))"
proof (intro impI)
  assume d: "0 \<le> d \<and> d \<le> 100"
  have dash: "fmt Undefined d = Inr Dash \<and> fmt Null d = Inr Dash \<and> fmt (Num NaN) d = Inr Dash"
    by simp
  have inf: "fmt (Num PInf) d = Inr (Rounded PInf) \<and> fmt (Num NInf) d = Inr (Rounded NInf)"
    using d by auto
  show "fmt Undefined d = Inr Dash \<and> fmt Null d = Inr Dash \<and> fmt (Num NaN) d = Inr Dash \<and>
   fmt (Num PInf) d = Inr (Rounded PInf) \<and> fmt (Num NInf) d = Inr (Rounded NInf) \<and>
   (x \<noteq> 0 \<and> \<bar>x\<bar> < 1 / 10000 \<longrightarrow> fmt (Num (Fin x)) d = Inr (Exponential x d)) \<and>
   (\<not> (x \<noteq> 0 \<and> \<bar>x\<bar> < 1 / 10000) \<longrightarrow>
      (\<exists>r. fmt (Num (Fin x)) d = Inr (Rounded (Fin r)) \<and>
           (\<bar>x\<bar> < 10 ^ 21 \<longrightarrow>
              r = to_double (round_fixed x (nat d)) \<and>
              (\<exists>n::int. round_fixed x (nat d) = of_int n / 10 ^ nat d) \<and>
              \<bar>round_fixed x (nat d) - x\<bar> \<le> 1 / (2 * 10 ^ nat d)) \<and>
           (10 ^ 21 \<le> \<bar>x\<bar> \<longrightarrow> r = x))) \<and>
   (\<exists>v. fmt (Num (Fin x)) d = Inr v \<and> is_string v = (x \<noteq> 0 \<and> \<bar>x\<bar> < 1 / 10000))"
  proof (cases "x \<noteq> 0 \<and> \<bar>x\<bar> < 1 / 10000")
    case True
    then have "fmt (Num (Fin x)) d = Inr (Exponential x d)"
      using d by (simp add: toExponential_def)
    moreover have "is_string (Exponential x d)"
      by simp
    ultimately show ?thesis
      using True dash inf by blast
  next
    case False
    let ?r = "if 10 ^ 21 \<le> \<bar>x\<bar> then x else to_double (round_fixed x (nat d))"
    have f: "fmt (Num (Fin x)) d = Inr (Rounded (Fin ?r))"
      using False d by auto
    have "\<bar>x\<bar> < 10 ^ 21 \<longrightarrow>
        ?r = to_double (round_fixed x (nat d)) \<and>
        (\<exists>n::int. round_fixed x (nat d) = of_int n / 10 ^ nat d) \<and>
        \<bar>round_fixed x (nat d) - x\<bar> \<le> 1 / (2 * 10 ^ nat d)"
      using round_fixed_grid [of x "nat d"] round_fixed_near [of x "nat d"] by auto
    moreover have "10 ^ 21 \<le> \<bar>x\<bar> \<longrightarrow> ?r = x"
      by simp
    ultimately have "\<exists>r. fmt (Num (Fin x)) d = Inr (Rounded (Fin r)) \<and>
           (\<bar>x\<bar> < 10 ^ 21 \<longrightarrow>
              r = to_double (round_fixed x (nat d)) \<and>
              (\<exists>n::int. round_fixed x (nat d) = of_int n / 10 ^ nat d) \<and>
              \<bar>round_fixed x (nat d) - x\<bar> \<le> 1 / (2 * 10 ^ nat d)) \<and>
           (10 ^ 21 \<le> \<bar>x\<bar> \<longrightarrow> r = x)"
      using f by blast
    moreover have "\<exists>v. fmt (Num (Fin x)) d = Inr v \<and> is_string v = (x \<noteq> 0 \<and> \<bar>x\<bar> < 1 / 10000)"
      using f False by auto
    ultimately show ?thesis
      using False dash inf by blast
  qed
qed

theorem fmt_cases_witness:
  "fmt (Num (Fin (5 / 100000))) 4 = Inr (Exponential (5 / 100000) 4) \<and>
   fmt Undefined 4 = Inr Dash \<and>
   fmt (Num (Fin (1 / 32))) 4 = Inr (Rounded (Fin (4510805386774289 / 2 ^ 57)))"
proof -
  have "fmt (Num (Fin (5 / 100000))) 4 = Inr (Exponential (5 / 100000) 4) \<and>
      fmt Undefined 4 = Inr Dash"
    using fmt_cases [of 4 "5 / 100000"] by (simp del: fmt.simps)
  moreover have "\<exists>r. fmt (Num (Fin (1 / 32))) 4 = Inr (Rounded (Fin r)) \<and>
      r = to_double (round_fixed (1 / 32) (nat 4))"
    using fmt_cases [of 4 "1 / 32"] by (auto simp del: fmt.simps)
  then have "fmt (Num (Fin (1 / 32))) 4 =
      Inr (Rounded (Fin (to_double (round_fixed (1 / 32) (nat 4)))))"
    by blast
  then have "fmt (Num (Fin (1 / 32))) 4 = Inr (Rounded (Fin (4510805386774289 / 2 ^ 57)))"
    by (simp del: fmt.simps add: round_fixed_32 double_313)
  ultimately show ?thesis
    by blast
qed

text \<open>
  \<open>fmt(1.2, 4)\<close>, for the double that \<open>1.2\<close> denotes, is that same number, and a digit
  count of 101 raises.
\<close>

theorem fmt_returns_number:
  "to_double (12 / 10) = 5404319552844595 / 2 ^ 52 \<and>
   fmt (Num (Fin (5404319552844595 / 2 ^ 52))) 4 =
     Inr (Rounded (Fin (5404319552844595 / 2 ^ 52))) \<and>
   \<not> is_string (Rounded (Fin (5404319552844595 / 2 ^ 52))) \<and>
   fmt (Num (Fin 1)) 101 = Inl RangeError"
  using double_six_fifths by (simp add: round_fixed_def)

section \<open>Identity conversion\<close>

lemma UNITS_MAP_MOLARITY: "UNITS_MAP ''MOLARITY'' = Some MOLARITY"
  by (simp add: UNITS_MAP_def)

lemma UNITS_MAP_CONC_DOSE: "UNITS_MAP ''CONC_DOSE'' = Some CONC_DOSE"
  by (simp add: UNITS_MAP_def)

lemma convertUnit_double_linear:
  assumes "UNITS_MAP family = Some table" "family \<noteq> ''TEMP''"
    "table fromUnit = Some f" "table toUnit = Some g"
  shows "convertUnit_double val fromUnit toUnit family =
     rnd (jdiv (rnd (jmul val (rnd (Fin f)))) (rnd (Fin g)))"
  using assms by (simp add: convertUnit_double_def Let_def)

lemma convertUnit_double_K_K:
  "convertUnit_double val ''K'' ''K'' ''TEMP'' =
     rnd (jadd (rnd (jsub val (rnd (Fin (27315 / 100))))) (rnd (Fin (27315 / 100))))"
  by (simp add: convertUnit_double_def UNITS_MAP_TEMP TEMP_K_double_def)

lemma convertUnit_double_F_F:
  "convertUnit_double val ''F'' ''F'' ''TEMP'' =
     rnd (jadd (rnd (jdiv (rnd (jmul
       (rnd (jdiv (rnd (jmul (rnd (jsub val (Fin 32))) (Fin 5))) (Fin 9)))
       (Fin 9))) (Fin 5))) (Fin 32))"
  by (simp add: convertUnit_double_def UNITS_MAP_TEMP TEMP_F_double_def)

lemma kelvin_1: "rnd (Fin (27315 / 100)) = Fin (2402652809016115 / 2 ^ 43)"
  apply ((simp only: jsub_Fin jadd_Fin jmul_Fin)?)
  apply (rule rnd_eval)
   apply (subst to_double_eval [where e = "8"])
      apply (simp_all add: pow2_def round_ties_even_def)
  done

lemma kelvin_2: "rnd (jsub (Fin (3602879701896397 / 2 ^ 55)) (Fin (2402652809016115 / 2 ^ 43))) = Fin (- (1200886599856947 / 2 ^ 42))"
  apply ((simp only: jsub_Fin jadd_Fin jmul_Fin)?)
  apply (rule rnd_eval)
   apply (subst to_double_eval [where e = "8"])
      apply (simp_all add: pow2_def round_ties_even_def)
  done

lemma kelvin_3: "rnd (jadd (Fin (- (1200886599856947 / 2 ^ 42))) (Fin (2402652809016115 / 2 ^ 43))) = Fin (879609302221 / 2 ^ 43)"
  apply ((simp only: jsub_Fin jadd_Fin jmul_Fin)?)
  apply (rule rnd_eval)
   apply (subst to_double_eval [where e = "- 4"])
      apply (simp_all add: pow2_def round_ties_even_def)
  done

lemma kelvin_drift:
  "convertUnit_double (Fin (3602879701896397 / 2 ^ 55)) ''K'' ''K'' ''TEMP'' = Fin (879609302221 / 2 ^ 43)"
  by (simp only: convertUnit_double_K_K kelvin_1 kelvin_2 kelvin_3)

lemma fahrenheit_1: "rnd (jsub (Fin (3602879701896397 / 2 ^ 55)) (Fin 32)) = Fin (- (4489525878534963 / 2 ^ 47))"
  apply ((simp only: jsub_Fin jadd_Fin jmul_Fin)?)
  apply (rule rnd_eval)
   apply (subst to_double_eval [where e = "4"])
      apply (simp_all add: pow2_def round_ties_even_def)
  done

lemma fahrenheit_2: "rnd (jmul (Fin (- (4489525878534963 / 2 ^ 47))) (Fin 5)) = Fin (- (319 / 2 ^ 1))"
  apply ((simp only: jsub_Fin jadd_Fin jmul_Fin)?)
  apply (rule rnd_eval)
   apply (subst to_double_eval [where e = "7"])
      apply (simp_all add: pow2_def round_ties_even_def)
  done

lemma fahrenheit_3: "rnd (jdiv (Fin (- (319 / 2 ^ 1))) (Fin 9)) = Fin (- (2494181043630535 / 2 ^ 47))"
  apply (simp only: jdiv_Fin_9)
  apply (rule rnd_eval)
   apply (subst to_double_eval [where e = "4"])
      apply (simp_all add: pow2_def round_ties_even_def)
  done

lemma fahrenheit_4: "rnd (jmul (Fin (- (2494181043630535 / 2 ^ 47))) (Fin 9)) = Fin (- (319 / 2 ^ 1))"
  apply ((simp only: jsub_Fin jadd_Fin jmul_Fin)?)
  apply (rule rnd_eval)
   apply (subst to_double_eval [where e = "7"])
      apply (simp_all add: pow2_def round_ties_even_def)
  done

lemma fahrenheit_5: "rnd (jdiv (Fin (- (319 / 2 ^ 1))) (Fin 5)) = Fin (- (4489525878534963 / 2 ^ 47))"
  apply (simp only: jdiv_Fin_5)
  apply (rule rnd_eval)
   apply (subst to_double_eval [where e = "4"])
      apply (simp_all add: pow2_def round_ties_even_def)
  done

lemma fahrenheit_6: "rnd (jadd (Fin (- (4489525878534963 / 2 ^ 47))) (Fin 32)) = Fin (14073748835533 / 2 ^ 47)"
  apply ((simp only: jsub_Fin jadd_Fin jmul_Fin)?)
  apply (rule rnd_eval)
   apply (subst to_double_eval [where e = "- 4"])
      apply (simp_all add: pow2_def round_ties_even_def)
  done

lemma fahrenheit_drift:
  "convertUnit_double (Fin (3602879701896397 / 2 ^ 55)) ''F'' ''F'' ''TEMP'' = Fin (14073748835533 / 2 ^ 47)"
  by (simp only: convertUnit_double_F_F fahrenheit_1 fahrenheit_2 fahrenheit_3 fahrenheit_4 fahrenheit_5 fahrenheit_6)

lemma jdiv_Fin_milli: "jdiv (Fin a) (Fin (1152921504606847 / 2 ^ 60)) = Fin (a / (1152921504606847 / 2 ^ 60))"
  by simp

lemma milli_1: "rnd (Fin (1 / 1000)) = Fin (1152921504606847 / 2 ^ 60)"
  apply ((simp only: jsub_Fin jadd_Fin jmul_Fin)?)
  apply (rule rnd_eval)
   apply (subst to_double_eval [where e = "- 10"])
      apply (simp_all add: pow2_def round_ties_even_def)
  done

lemma milli_2: "rnd (jmul (Fin (1001)) (Fin (1152921504606847 / 2 ^ 60))) = Fin (4508103226997867 / 2 ^ 52)"
  apply ((simp only: jsub_Fin jadd_Fin jmul_Fin)?)
  apply (rule rnd_eval)
   apply (subst to_double_eval [where e = "0"])
      apply (simp_all add: pow2_def round_ties_even_def)
  done

lemma milli_3: "rnd (jdiv (Fin (4508103226997867 / 2 ^ 52)) (Fin (1152921504606847 / 2 ^ 60))) = Fin (8804889115230209 / 2 ^ 43)"
  apply (simp only: jdiv_Fin_milli)
  apply (rule rnd_eval)
   apply (subst to_double_eval [where e = "9"])
      apply (simp_all add: pow2_def round_ties_even_def)
  done

lemma milli_drift:
  assumes "UNITS_MAP family = Some table" "family \<noteq> ''TEMP''" "table u = Some (1 / 1000)"
  shows "convertUnit_double (Fin (1001)) u u family = Fin (8804889115230209 / 2 ^ 43)"
  by (simp only: convertUnit_double_linear [OF assms(1,2,3,3)] milli_1 milli_2 milli_3)

lemma jdiv_Fin_micro: "jdiv (Fin a) (Fin (4722366482869645 / 2 ^ 72)) = Fin (a / (4722366482869645 / 2 ^ 72))"
  by simp

lemma micro_1: "rnd (Fin (1 / 1000000)) = Fin (4722366482869645 / 2 ^ 72)"
  apply ((simp only: jsub_Fin jadd_Fin jmul_Fin)?)
  apply (rule rnd_eval)
   apply (subst to_double_eval [where e = "- 20"])
      apply (simp_all add: pow2_def round_ties_even_def)
  done

lemma micro_2: "rnd (jmul (Fin (31)) (Fin (4722366482869645 / 2 ^ 72))) = Fin (4574792530279969 / 2 ^ 67)"
  apply ((simp only: jsub_Fin jadd_Fin jmul_Fin)?)
  apply (rule rnd_eval)
   apply (subst to_double_eval [where e = "- 15"])
      apply (simp_all add: pow2_def round_ties_even_def)
  done

lemma micro_3: "rnd (jdiv (Fin (4574792530279969 / 2 ^ 67)) (Fin (4722366482869645 / 2 ^ 72))) = Fin (8725724278030337 / 2 ^ 48)"
  apply (simp only: jdiv_Fin_micro)
  apply (rule rnd_eval)
   apply (subst to_double_eval [where e = "4"])
      apply (simp_all add: pow2_def round_ties_even_def)
  done

lemma micro_drift:
  assumes "UNITS_MAP family = Some table" "family \<noteq> ''TEMP''" "table u = Some (1 / 1000000)"
  shows "convertUnit_double (Fin (31)) u u family = Fin (8725724278030337 / 2 ^ 48)"
  by (simp only: convertUnit_double_linear [OF assms(1,2,3,3)] micro_1 micro_2 micro_3)

lemma jdiv_Fin_kilo: "jdiv (Fin a) (Fin (1000)) = Fin (a / (1000))"
  by simp

lemma kilo_1: "rnd (Fin (1000)) = Fin (1000)"
  apply ((simp only: jsub_Fin jadd_Fin jmul_Fin)?)
  apply (rule rnd_eval)
   apply (subst to_double_eval [where e = "9"])
      apply (simp_all add: pow2_def round_ties_even_def)
  done

lemma kilo_2: "rnd (jmul (Fin (4842270319348757 / 2 ^ 61)) (Fin (1000))) = Fin (4728779608739021 / 2 ^ 51)"
  apply ((simp only: jsub_Fin jadd_Fin jmul_Fin)?)
  apply (rule rnd_eval)
   apply (subst to_double_eval [where e = "1"])
      apply (simp_all add: pow2_def round_ties_even_def)
  done

lemma kilo_3: "rnd (jdiv (Fin (4728779608739021 / 2 ^ 51)) (Fin (1000))) = Fin (2421135159674379 / 2 ^ 60)"
  apply (simp only: jdiv_Fin_kilo)
  apply (rule rnd_eval)
   apply (subst to_double_eval [where e = "- 9"])
      apply (simp_all add: pow2_def round_ties_even_def)
  done

lemma kilo_drift:
  assumes "UNITS_MAP family = Some table" "family \<noteq> ''TEMP''" "table u = Some (1000)"
  shows "convertUnit_double (Fin (4842270319348757 / 2 ^ 61)) u u family = Fin (2421135159674379 / 2 ^ 60)"
  by (simp only: convertUnit_double_linear [OF assms(1,2,3,3)] kilo_1 kilo_2 kilo_3)

lemma jdiv_Fin_ten: "jdiv (Fin a) (Fin (10)) = Fin (a / (10))"
  by simp

lemma ten_1: "rnd (Fin (10)) = Fin (10)"
  apply ((simp only: jsub_Fin jadd_Fin jmul_Fin)?)
  apply (rule rnd_eval)
   apply (subst to_double_eval [where e = "3"])
      apply (simp_all add: pow2_def round_ties_even_def)
  done

lemma ten_2: "rnd (jmul (Fin (7926335344172073 / 2 ^ 56)) (Fin (10))) = Fin (2476979795053773 / 2 ^ 51)"
  apply ((simp only: jsub_Fin jadd_Fin jmul_Fin)?)
  apply (rule rnd_eval)
   apply (subst to_double_eval [where e = "0"])
      apply (simp_all add: pow2_def round_ties_even_def)
  done

lemma ten_3: "rnd (jdiv (Fin (2476979795053773 / 2 ^ 51)) (Fin (10))) = Fin (3963167672086037 / 2 ^ 55)"
  apply (simp only: jdiv_Fin_ten)
  apply (rule rnd_eval)
   apply (subst to_double_eval [where e = "- 4"])
      apply (simp_all add: pow2_def round_ties_even_def)
  done

lemma ten_drift:
  assumes "UNITS_MAP family = Some table" "family \<noteq> ''TEMP''" "table u = Some (10)"
  shows "convertUnit_double (Fin (7926335344172073 / 2 ^ 56)) u u family = Fin (3963167672086037 / 2 ^ 55)"
  by (simp only: convertUnit_double_linear [OF assms(1,2,3,3)] ten_1 ten_2 ten_3)

lemma is_double_tenth: "is_double (3602879701896397 / 2 ^ 55)"
  unfolding is_double_def
  apply (rule conjI)
   apply (subst to_double_eval [where e = "- 4"])
      apply (simp_all add: pow2_def round_ties_even_def)
  done

lemma is_double_1001: "is_double (1001)"
  unfolding is_double_def
  apply (rule conjI)
   apply (subst to_double_eval [where e = "9"])
      apply (simp_all add: pow2_def round_ties_even_def)
  done

lemma is_double_31: "is_double (31)"
  unfolding is_double_def
  apply (rule conjI)
   apply (subst to_double_eval [where e = "4"])
      apply (simp_all add: pow2_def round_ties_even_def)
  done

lemma is_double_kilo: "is_double (4842270319348757 / 2 ^ 61)"
  unfolding is_double_def
  apply (rule conjI)
   apply (subst to_double_eval [where e = "- 9"])
      apply (simp_all add: pow2_def round_ties_even_def)
  done

lemma is_double_ten: "is_double (7926335344172073 / 2 ^ 56)"
  unfolding is_double_def
  apply (rule conjI)
   apply (subst to_double_eval [where e = "- 4"])
      apply (simp_all add: pow2_def round_ties_even_def)
  done

lemma is_double_one: "is_double (1)"
  unfolding is_double_def
  apply (rule conjI)
   apply (subst to_double_eval [where e = "0"])
      apply (simp_all add: pow2_def round_ties_even_def)
  done

lemma rnd_double: "is_double v \<Longrightarrow> rnd (Fin v) = Fin v"
  by (simp add: is_double_def rnd.simps Let_def)

lemma TEMP_base: "TEMP u = Some 1 \<Longrightarrow> u = ''C''"
  by (simp add: TEMP_def split: if_splits)

text \<open>
  C9. On doubles a conversion from a unit to the same unit returns the value, for every
  finite value, when the table of the family holds 1 for the unit: these are the base
  units \<open>g\<close>, \<open>L\<close>, \<open>M\<close>, \<open>mg/mL\<close> and \<open>g/L\<close>, for which the product and the
  quotient are exact, and \<open>C\<close>, for which nothing is computed.
\<close>

theorem convertUnit_double_identity_base:
  "is_double v \<and> UNITS_MAP family = Some table \<and> table u = Some 1 \<longrightarrow>
   convertUnit_double (Fin v) u u family = Fin v"
proof (intro impI, elim conjE)
  assume v: "is_double v" and fam: "UNITS_MAP family = Some table" and u: "table u = Some 1"
  show "convertUnit_double (Fin v) u u family = Fin v"
  proof (cases "family = ''TEMP''")
    case True
    then have "table = TEMP"
      using fam by (simp add: UNITS_MAP_TEMP)
    then have "u = ''C''"
      using u by (simp add: TEMP_base)
    then show ?thesis
      using True by (simp add: convertUnit_double_def UNITS_MAP_TEMP)
  next
    case False
    have one: "rnd (Fin 1) = Fin 1"
      using is_double_one by (rule rnd_double)
    have "convertUnit_double (Fin v) u u family =
        rnd (jdiv (rnd (jmul (Fin v) (rnd (Fin 1)))) (rnd (Fin 1)))"
      using fam False u u by (rule convertUnit_double_linear)
    also have "\<dots> = rnd (jdiv (rnd (Fin v)) (Fin 1))"
      by (simp add: one)
    also have "\<dots> = rnd (Fin v)"
      by (simp add: rnd_double [OF v])
    also have "\<dots> = Fin v"
      using v by (rule rnd_double)
    finally show ?thesis .
  qed
qed

theorem convertUnit_double_identity_base_witness:
  "is_double (3602879701896397 / 2 ^ 55) \<and> UNITS_MAP ''MASS'' = Some MASS \<and> MASS ''g'' = Some 1 \<and>
   convertUnit_double (Fin (3602879701896397 / 2 ^ 55)) ''g'' ''g'' ''MASS'' = Fin (3602879701896397 / 2 ^ 55)"
proof -
  have "MASS ''g'' = Some 1"
    by (simp add: MASS_def)
  with is_double_tenth UNITS_MAP_MASS show ?thesis
    using convertUnit_double_identity_base
      [of "3602879701896397 / 2 ^ 55" "''MASS''" MASS "''g''"]
    by blast
qed

lemma factor_entries:
  "MASS ''kg'' = Some 1000" "MASS ''mg'' = Some (1 / 1000)" "MASS ''ug'' = Some (1 / 1000000)"
  "VOLUME ''mL'' = Some (1 / 1000)" "VOLUME ''uL'' = Some (1 / 1000000)"
  "MOLARITY ''mM'' = Some (1 / 1000)" "MOLARITY ''uM'' = Some (1 / 1000000)"
  "CONC_DOSE ''mcg/mL'' = Some (1 / 1000)" "CONC_DOSE ''% w/v'' = Some 10"
  by (simp_all add: MASS_def VOLUME_def MOLARITY_def CONC_DOSE_def)

lemma not_TEMP:
  "''MASS'' \<noteq> ''TEMP''" "''VOLUME'' \<noteq> ''TEMP''" "''MOLARITY'' \<noteq> ''TEMP''"
  "''CONC_DOSE'' \<noteq> ''TEMP''"
  by simp_all

text \<open>
  For each of the other units there is a double that the conversion does not return:
  0.1 in kelvin and in degrees Fahrenheit, 1001 for the factor \<open>1e-3\<close>, 31 for the
  factor \<open>1e-6\<close>, 0.0021 in kilograms and 0.11 in percent.
\<close>

theorem convertUnit_double_drift:
  "is_double (3602879701896397 / 2 ^ 55) \<and> is_double 1001 \<and> is_double 31 \<and>
   is_double (4842270319348757 / 2 ^ 61) \<and> is_double (7926335344172073 / 2 ^ 56) \<and>
   convertUnit_double (Fin (3602879701896397 / 2 ^ 55)) ''K'' ''K'' ''TEMP'' = Fin (879609302221 / 2 ^ 43) \<and>
   convertUnit_double (Fin (3602879701896397 / 2 ^ 55)) ''F'' ''F'' ''TEMP'' = Fin (14073748835533 / 2 ^ 47) \<and>
   convertUnit_double (Fin 1001) ''mg'' ''mg'' ''MASS'' = Fin (8804889115230209 / 2 ^ 43) \<and>
   convertUnit_double (Fin 1001) ''mL'' ''mL'' ''VOLUME'' = Fin (8804889115230209 / 2 ^ 43) \<and>
   convertUnit_double (Fin 1001) ''mM'' ''mM'' ''MOLARITY'' = Fin (8804889115230209 / 2 ^ 43) \<and>
   convertUnit_double (Fin 1001) ''mcg/mL'' ''mcg/mL'' ''CONC_DOSE'' = Fin (8804889115230209 / 2 ^ 43) \<and>
   convertUnit_double (Fin 31) ''ug'' ''ug'' ''MASS'' = Fin (8725724278030337 / 2 ^ 48) \<and>
   convertUnit_double (Fin 31) ''uL'' ''uL'' ''VOLUME'' = Fin (8725724278030337 / 2 ^ 48) \<and>
   convertUnit_double (Fin 31) ''uM'' ''uM'' ''MOLARITY'' = Fin (8725724278030337 / 2 ^ 48) \<and>
   convertUnit_double (Fin (4842270319348757 / 2 ^ 61)) ''kg'' ''kg'' ''MASS'' = Fin (2421135159674379 / 2 ^ 60) \<and>
   convertUnit_double (Fin (7926335344172073 / 2 ^ 56)) ''% w/v'' ''% w/v'' ''CONC_DOSE'' = Fin (3963167672086037 / 2 ^ 55) \<and>
   (879609302221 / 2 ^ 43 :: real) \<noteq> 3602879701896397 / 2 ^ 55 \<and> (14073748835533 / 2 ^ 47 :: real) \<noteq> 3602879701896397 / 2 ^ 55 \<and>
   (8804889115230209 / 2 ^ 43 :: real) \<noteq> 1001 \<and> (8725724278030337 / 2 ^ 48 :: real) \<noteq> 31 \<and>
   (2421135159674379 / 2 ^ 60 :: real) \<noteq> 4842270319348757 / 2 ^ 61 \<and> (3963167672086037 / 2 ^ 55 :: real) \<noteq> 7926335344172073 / 2 ^ 56"
proof -
  have "(879609302221 / 2 ^ 43 :: real) \<noteq> 3602879701896397 / 2 ^ 55 \<and> (14073748835533 / 2 ^ 47 :: real) \<noteq> 3602879701896397 / 2 ^ 55 \<and>
   (8804889115230209 / 2 ^ 43 :: real) \<noteq> 1001 \<and> (8725724278030337 / 2 ^ 48 :: real) \<noteq> 31 \<and>
   (2421135159674379 / 2 ^ 60 :: real) \<noteq> 4842270319348757 / 2 ^ 61 \<and> (3963167672086037 / 2 ^ 55 :: real) \<noteq> 7926335344172073 / 2 ^ 56"
    by simp
  then show ?thesis
    using is_double_tenth is_double_1001 is_double_31 is_double_kilo is_double_ten
      kelvin_drift fahrenheit_drift
      milli_drift [OF UNITS_MAP_MASS not_TEMP(1) factor_entries(2)]
      milli_drift [OF UNITS_MAP_VOLUME not_TEMP(2) factor_entries(4)]
      milli_drift [OF UNITS_MAP_MOLARITY not_TEMP(3) factor_entries(6)]
      milli_drift [OF UNITS_MAP_CONC_DOSE not_TEMP(4) factor_entries(8)]
      micro_drift [OF UNITS_MAP_MASS not_TEMP(1) factor_entries(3)]
      micro_drift [OF UNITS_MAP_VOLUME not_TEMP(2) factor_entries(5)]
      micro_drift [OF UNITS_MAP_MOLARITY not_TEMP(3) factor_entries(7)]
      kilo_drift [OF UNITS_MAP_MASS not_TEMP(1) factor_entries(1)]
      ten_drift [OF UNITS_MAP_CONC_DOSE not_TEMP(4) factor_entries(9)]
    by blast
qed


section \<open>Rounding error of double precision\<close>

lemma pow2_pos: "0 < pow2 k"
  by (simp only: pow2_powr) simp

lemma pow2_add: "pow2 (a + b) = pow2 a * pow2 b"
  by (simp only: pow2_powr of_int_add powr_add)

lemma pow2_mono: "a \<le> b \<Longrightarrow> pow2 a \<le> pow2 b"
  by (simp only: pow2_powr) simp

lemma pow2_less_cancel: "pow2 a < pow2 b \<Longrightarrow> a < b"
  by (simp only: pow2_powr) simp

lemma round_ties_even_near: "\<bar>of_int (round_ties_even y) - y\<bar> \<le> 1 / 2"
proof -
  have "of_int \<lfloor>y\<rfloor> \<le> y" "y < of_int \<lfloor>y\<rfloor> + 1"
    by linarith+
  then show ?thesis
    by (auto simp: round_ties_even_def Let_def)
qed

lemma round_ties_even_ge: "of_int n \<le> y \<Longrightarrow> n \<le> round_ties_even y"
proof -
  assume "of_int n \<le> y"
  then have "n \<le> \<lfloor>y\<rfloor>"
    by (simp add: le_floor_iff)
  then show ?thesis
    by (auto simp: round_ties_even_def Let_def)
qed

lemma to_double_zero: "to_double 0 = 0"
  by (simp add: to_double_def)

lemma floor_log_bounds:
  assumes "x \<noteq> 0"
  shows "pow2 \<lfloor>log 2 \<bar>x\<bar>\<rfloor> \<le> \<bar>x\<bar>" "\<bar>x\<bar> < pow2 (\<lfloor>log 2 \<bar>x\<bar>\<rfloor> + 1)"
proof -
  have "0 < \<bar>x\<bar>"
    using assms by simp
  then have "2 powr (of_int \<lfloor>log 2 \<bar>x\<bar>\<rfloor>) \<le> \<bar>x\<bar> \<and>
      \<bar>x\<bar> < 2 powr (of_int (\<lfloor>log 2 \<bar>x\<bar>\<rfloor> + 1))"
    using floor_log_eq_powr_iff [of "\<bar>x\<bar>" 2 "\<lfloor>log 2 \<bar>x\<bar>\<rfloor>"] by simp
  then show "pow2 \<lfloor>log 2 \<bar>x\<bar>\<rfloor> \<le> \<bar>x\<bar>" "\<bar>x\<bar> < pow2 (\<lfloor>log 2 \<bar>x\<bar>\<rfloor> + 1)"
    by (simp_all only: pow2_powr)
qed

text \<open>The rounded value is a whole multiple of the spacing, within half of it.\<close>

lemma to_double_spacing:
  assumes "x \<noteq> 0"
  defines "e \<equiv> max \<lfloor>log 2 \<bar>x\<bar>\<rfloor> (- 1022)"
  shows "to_double x = of_int (round_ties_even (x / pow2 (e - 52))) * pow2 (e - 52)"
    and "\<bar>to_double x - x\<bar> \<le> pow2 (e - 53)"
proof -
  let ?u = "pow2 (e - 52)"
  let ?k = "round_ties_even (x / ?u)"
  show eq: "to_double x = of_int ?k * ?u"
    using assms(1) by (simp add: to_double_def Let_def e_def)
  have u: "0 < ?u"
    by (rule pow2_pos)
  have "of_int ?k * ?u - x = (of_int ?k - x / ?u) * ?u"
    using u by (simp add: left_diff_distrib)
  then have "\<bar>of_int ?k * ?u - x\<bar> = \<bar>of_int ?k - x / ?u\<bar> * ?u"
    using u by (simp add: abs_mult)
  also have "\<dots> \<le> (1 / 2) * ?u"
    using u round_ties_even_near [of "x / ?u"] by (intro mult_right_mono) simp_all
  also have "(1 / 2) * ?u = pow2 (e - 53)"
  proof -
    have "pow2 (e - 52) = pow2 ((e - 53) + 1)"
      by simp
    also have "\<dots> = pow2 (e - 53) * pow2 1"
      by (rule pow2_add)
    finally show ?thesis
      by (simp add: pow2_def)
  qed
  finally show "\<bar>to_double x - x\<bar> \<le> pow2 (e - 53)"
    by (simp only: eq)
qed

lemma to_double_error: "\<bar>to_double x - x\<bar> \<le> \<bar>x\<bar> / 2 ^ 53 + 1 / 2 ^ 1075"
proof (cases "x = 0")
  case True
  then show ?thesis
    by (simp add: to_double_zero)
next
  case False
  let ?e' = "\<lfloor>log 2 \<bar>x\<bar>\<rfloor>"
  let ?e = "max ?e' (- 1022)"
  have err: "\<bar>to_double x - x\<bar> \<le> pow2 (?e - 53)"
    using to_double_spacing(2) [OF False] .
  show ?thesis
  proof (cases "- 1022 \<le> ?e'")
    case True
    then have "?e - 53 = ?e' + (- 53)"
      by linarith
    then have "pow2 (?e - 53) = pow2 (?e' + (- 53))"
      by (rule arg_cong)
    also have "\<dots> = pow2 ?e' * pow2 (- 53)"
      by (rule pow2_add)
    also have "\<dots> = pow2 ?e' / 2 ^ 53"
      by (simp add: pow2_def)
    also have "\<dots> \<le> \<bar>x\<bar> / 2 ^ 53"
      using floor_log_bounds(1) [OF False] by (simp add: divide_right_mono)
    finally have "pow2 (?e - 53) \<le> \<bar>x\<bar> / 2 ^ 53" .
    moreover have "(0::real) \<le> 1 / 2 ^ 1075"
      by simp
    ultimately show ?thesis
      using err by linarith
  next
    case False
    then have "?e - 53 = - 1075"
      by linarith
    then have "pow2 (?e - 53) = pow2 (- 1075)"
      by (rule arg_cong)
    also have "\<dots> = 1 / 2 ^ 1075"
      by (simp add: pow2_def)
    finally have "pow2 (?e - 53) = 1 / 2 ^ 1075" .
    moreover have "(0::real) \<le> \<bar>x\<bar> / 2 ^ 53"
      by simp
    ultimately show ?thesis
      using err by linarith
  qed
qed

lemma to_double_error_normal:
  assumes "1 / 2 ^ 1022 \<le> \<bar>x\<bar>"
  shows "\<bar>to_double x - x\<bar> \<le> \<bar>x\<bar> / 2 ^ 53"
proof -
  have nz: "x \<noteq> 0"
    using assms by auto
  let ?e' = "\<lfloor>log 2 \<bar>x\<bar>\<rfloor>"
  have "pow2 (- 1022) \<le> \<bar>x\<bar>"
    using assms by (simp add: pow2_def)
  then have "pow2 (- 1022) < pow2 (?e' + 1)"
    using floor_log_bounds(2) [OF nz] by linarith
  then have e: "- 1022 \<le> ?e'"
    using pow2_less_cancel by fastforce
  have "\<bar>to_double x - x\<bar> \<le> pow2 (max ?e' (- 1022) - 53)"
    using to_double_spacing(2) [OF nz] .
  also have "pow2 (max ?e' (- 1022) - 53) = pow2 (?e' + (- 53))"
  proof -
    have "max ?e' (- 1022) - 53 = ?e' + (- 53)"
      using e by linarith
    then show ?thesis
      by (rule arg_cong)
  qed
  also have "\<dots> = pow2 ?e' * pow2 (- 53)"
    by (rule pow2_add)
  also have "\<dots> = pow2 ?e' / 2 ^ 53"
    by (simp add: pow2_def)
  also have "\<dots> \<le> \<bar>x\<bar> / 2 ^ 53"
    using floor_log_bounds(1) [OF nz] by (simp add: divide_right_mono)
  finally show ?thesis .
qed

lemma to_double_nonneg:
  assumes "0 \<le> x"
  shows "0 \<le> to_double x"
proof (cases "x = 0")
  case True
  then show ?thesis
    by (simp add: to_double_zero)
next
  case False
  let ?u = "pow2 (max \<lfloor>log 2 \<bar>x\<bar>\<rfloor> (- 1022) - 52)"
  have "0 \<le> x / ?u"
    using assms pow2_pos [of "max \<lfloor>log 2 \<bar>x\<bar>\<rfloor> (- 1022) - 52"] by simp
  then have "0 \<le> round_ties_even (x / ?u)"
    using round_ties_even_ge [of 0 "x / ?u"] by simp
  then have "0 \<le> of_int (round_ties_even (x / ?u)) * ?u"
    using pow2_pos [of "max \<lfloor>log 2 \<bar>x\<bar>\<rfloor> (- 1022) - 52"] by simp
  then show ?thesis
    by (simp only: to_double_spacing(1) [OF False])
qed


lemma to_double_ge_pow2:
  assumes "pow2 n \<le> x" "- 1022 \<le> n"
  shows "pow2 n \<le> to_double x"
proof -
  have xpos: "0 < x"
    using assms(1) pow2_pos [of n] by linarith
  then have nz: "x \<noteq> 0" and ax: "\<bar>x\<bar> = x"
    by simp_all
  let ?e' = "\<lfloor>log 2 \<bar>x\<bar>\<rfloor>"
  have "pow2 n < pow2 (?e' + 1)"
    using assms(1) floor_log_bounds(2) [OF nz] ax by linarith
  then have ne: "n \<le> ?e'"
    using pow2_less_cancel by fastforce
  then have "max ?e' (- 1022) = ?e'"
    using assms(2) by linarith
  then have eq: "to_double x =
      of_int (round_ties_even (x / pow2 (?e' - 52))) * pow2 (?e' - 52)"
    using to_double_spacing(1) [OF nz] by simp
  have u: "0 < pow2 (?e' - 52)"
    by (rule pow2_pos)
  have split: "pow2 ?e' = pow2 52 * pow2 (?e' - 52)"
  proof -
    have "pow2 ?e' = pow2 (52 + (?e' - 52))"
      by simp
    then show ?thesis
      by (simp only: pow2_add)
  qed
  have "pow2 52 * pow2 (?e' - 52) \<le> x"
    using floor_log_bounds(1) [OF nz] ax split by linarith
  then have "pow2 52 \<le> x / pow2 (?e' - 52)"
    using u by (simp add: pos_le_divide_eq)
  then have "of_int (2 ^ 52) \<le> x / pow2 (?e' - 52)"
    by (simp add: pow2_def)
  then have "2 ^ 52 \<le> round_ties_even (x / pow2 (?e' - 52))"
    by (rule round_ties_even_ge)
  then have "(2 ^ 52 :: real) \<le> of_int (round_ties_even (x / pow2 (?e' - 52)))"
    by (metis of_int_le_iff of_int_numeral of_int_power)
  then have "pow2 52 * pow2 (?e' - 52) \<le> to_double x"
    using u by (simp add: eq pow2_def mult_right_mono)
  then have "pow2 ?e' \<le> to_double x"
    by (simp only: split)
  moreover have "pow2 n \<le> pow2 ?e'"
    using ne by (rule pow2_mono)
  ultimately show ?thesis
    by linarith
qed

text \<open>A rounded value below \<open>2^1024\<close> is at most the largest double.\<close>

lemma to_double_max:
  assumes "0 \<le> x" "to_double x < 2 ^ 1024"
  shows "to_double x \<le> 2 ^ 1024 - 2 ^ 971"
proof (cases "x < 2 ^ 1023")
  case True
  have "\<bar>to_double x - x\<bar> \<le> \<bar>x\<bar> / 2 ^ 53 + 1 / 2 ^ 1075"
    by (rule to_double_error)
  then have "to_double x \<le> x + x / 2 ^ 53 + 1 / 2 ^ 1075"
    using assms(1) by simp
  moreover have "x + x / 2 ^ 53 \<le> 2 ^ 1023 + 2 ^ 1023 / 2 ^ 53"
    using True by (intro add_mono divide_right_mono) simp_all
  moreover have "(2 ^ 1023 + 2 ^ 1023 / 2 ^ 53 + 1 / 2 ^ 1075 :: real) \<le> 2 ^ 1024 - 2 ^ 971"
    by simp
  ultimately show ?thesis
    by linarith
next
  case False
  then have lo: "pow2 1023 \<le> x"
    by (simp add: pow2_def)
  then have xpos: "0 < x"
    using pow2_pos [of 1023] by linarith
  then have nz: "x \<noteq> 0" and ax: "\<bar>x\<bar> = x"
    by simp_all
  have hi: "x < pow2 1024"
  proof (rule ccontr)
    assume "\<not> x < pow2 1024"
    then have "pow2 1024 \<le> to_double x"
      by (intro to_double_ge_pow2) simp_all
    then show False
      using assms(2) by (simp add: pow2_def)
  qed
  have "2 powr (of_int 1023) \<le> x \<and> x < 2 powr (of_int 1023 + 1)"
    using lo hi by (simp only: pow2_powr) simp
  then have e: "\<lfloor>log 2 \<bar>x\<bar>\<rfloor> = 1023"
    using xpos ax by (simp add: floor_log_eq_powr_iff)
  let ?k = "round_ties_even (x / pow2 971)"
  have eq: "to_double x = of_int ?k * 2 ^ 971"
    using to_double_spacing(1) [OF nz] e by (simp add: pow2_def)
  then have "of_int ?k * (2 ^ 971 :: real) < 2 ^ 53 * 2 ^ 971"
    using assms(2) by simp
  then have "(of_int ?k :: real) < 2 ^ 53"
    by (simp only: mult_less_cancel_right_pos zero_less_power zero_less_numeral)
  then have "?k < 2 ^ 53"
    by (metis of_int_less_iff of_int_numeral of_int_power)
  then have "?k \<le> 2 ^ 53 - 1"
    by simp
  then have "(of_int ?k :: real) \<le> of_int (2 ^ 53 - 1)"
    by (simp only: of_int_le_iff)
  then have "(of_int ?k :: real) \<le> 2 ^ 53 - 1"
    by simp
  then have "of_int ?k * (2 ^ 971 :: real) \<le> (2 ^ 53 - 1) * 2 ^ 971"
    by (intro mult_right_mono) simp_all
  then show ?thesis
    by (simp add: eq)
qed

lemma rnd_nonneg_cases:
  assumes "0 \<le> a"
  shows "rnd (Fin a) = PInf \<or>
    (rnd (Fin a) = Fin (to_double a) \<and> 0 \<le> to_double a \<and>
     to_double a \<le> 2 ^ 1024 - 2 ^ 971)"
proof (cases "2 ^ 1024 \<le> \<bar>to_double a\<bar>")
  case True
  then have "a \<noteq> 0"
    by (auto simp: to_double_zero)
  then show ?thesis
    using True assms by (simp add: rnd.simps Let_def signed_inf_def)
next
  case False
  have nn: "0 \<le> to_double a"
    using assms by (rule to_double_nonneg)
  then have "to_double a < 2 ^ 1024"
    using False by simp
  then have "to_double a \<le> 2 ^ 1024 - 2 ^ 971"
    using assms by (intro to_double_max)
  then show ?thesis
    using False nn by (simp add: rnd.simps Let_def)
qed


text \<open>The two fractions of the buffer memo, for a finite ratio \<open>r \<ge> 0\<close>:
  \<open>1 + r\<close> is rounded to \<open>s\<close>, then \<open>1 / s\<close> and \<open>r / s\<close>
  are rounded.\<close>

lemma buffer_fractions_double:
  assumes r0: "0 \<le> r" and rM: "r \<le> 2 ^ 1024 - 2 ^ 971"
  shows "\<exists>a b. rnd (jdiv (Fin 1) (rnd (jadd (Fin 1) (Fin r)))) = Fin a \<and>
    rnd (jdiv (Fin r) (rnd (jadd (Fin 1) (Fin r)))) = Fin b \<and>
    0 \<le> a \<and> 0 \<le> b \<and> \<bar>a + b - 1\<bar> \<le> 1 / 2 ^ 51"
proof -
  define t where "t = 1 + r"
  define s where "s = to_double t"
  have t1: "1 \<le> t"
    using r0 by (simp add: t_def)
  have tM: "t \<le> 2 ^ 1024 - 2 ^ 971 + 1"
    using rM by (simp add: t_def)
  have "1 / 2 ^ 1022 \<le> \<bar>t\<bar>"
  proof -
    have "(1 / 2 ^ 1022 :: real) \<le> 1"
      by simp
    then show ?thesis
      using t1 by linarith
  qed
  then have "\<bar>to_double t - t\<bar> \<le> \<bar>t\<bar> / 2 ^ 53"
    by (rule to_double_error_normal)
  then have es: "\<bar>s - t\<bar> \<le> t / 2 ^ 53"
    using t1 by (simp add: s_def)
  have "t / 2 ^ 53 \<le> t / 2"
    using t1 by (intro divide_left_mono) simp_all
  then have s_pos: "0 < s"
    using es t1 by linarith
  have "t + t / 2 ^ 53 \<le> (2 ^ 1024 - 2 ^ 971 + 1) + (2 ^ 1024 - 2 ^ 971 + 1) / 2 ^ 53"
    using tM by (intro add_mono divide_right_mono) simp_all
  moreover have "((2 ^ 1024 - 2 ^ 971 + 1) + (2 ^ 1024 - 2 ^ 971 + 1) / 2 ^ 53 :: real) < 2 ^ 1024"
    by simp
  moreover have "s \<le> t + t / 2 ^ 53"
    using es by linarith
  ultimately have s_fin: "\<bar>s\<bar> < 2 ^ 1024"
    using s_pos by linarith
  have "rnd (Fin t) = Fin s"
    using s_fin by (intro rnd_eval) (simp only: s_def)
  then have rs: "rnd (jadd (Fin 1) (Fin r)) = Fin s"
    by (simp only: jadd_Fin t_def)
  define q where "q = t / s"
  define A where "A = 1 / s"
  define B where "B = r / s"
  have A0: "0 \<le> A" and B0: "0 \<le> B"
    using s_pos r0 by (simp_all add: A_def B_def)
  have q_eq: "A + B = q"
    by (simp add: A_def B_def q_def t_def add_divide_distrib)
  have es': "\<bar>t - s\<bar> \<le> t / 2 ^ 53"
    using es by (simp only: abs_minus_commute)
  have "q - 1 = (t - s) / s"
    using s_pos by (simp add: q_def diff_divide_distrib)
  then have "\<bar>q - 1\<bar> = \<bar>t - s\<bar> / s"
    using s_pos by simp
  also have "\<dots> \<le> (t / 2 ^ 53) / s"
    by (rule divide_right_mono [OF es' less_imp_le [OF s_pos]])
  also have "\<dots> = q / 2 ^ 53"
    by (simp add: q_def)
  finally have qd: "\<bar>q - 1\<bar> \<le> q / 2 ^ 53" .
  have q0: "0 \<le> q"
    using s_pos t1 by (simp add: q_def)
  then have "q / 2 ^ 53 \<le> q / 3"
    by (intro divide_left_mono) simp_all
  then have q_hi: "q \<le> 3 / 2"
    using qd by linarith
  define a where "a = to_double A"
  define b where "b = to_double B"
  have "\<bar>to_double A - A\<bar> \<le> \<bar>A\<bar> / 2 ^ 53 + 1 / 2 ^ 1075"
    by (rule to_double_error)
  then have ea: "\<bar>a - A\<bar> \<le> A / 2 ^ 53 + 1 / 2 ^ 1075"
    using A0 by (simp add: a_def)
  have "\<bar>to_double B - B\<bar> \<le> \<bar>B\<bar> / 2 ^ 53 + 1 / 2 ^ 1075"
    by (rule to_double_error)
  then have eb: "\<bar>b - B\<bar> \<le> B / 2 ^ 53 + 1 / 2 ^ 1075"
    using B0 by (simp add: b_def)
  have a0: "0 \<le> a" and b0: "0 \<le> b"
    using A0 B0 by (simp_all add: a_def b_def to_double_nonneg)
  have AB: "A \<le> 3 / 2" "B \<le> 3 / 2"
    using A0 B0 q_eq q_hi by linarith+
  have small: "(1 / 2 ^ 1075 :: real) \<le> 1" "(4 :: real) < 2 ^ 1024"
    by simp_all
  have "a - A \<le> A / 9007199254740992 + 1 / 2 ^ 1075"
    using ea by simp
  then have a_fin: "\<bar>a\<bar> < 2 ^ 1024"
    using small AB A0 a0 by linarith
  have "b - B \<le> B / 9007199254740992 + 1 / 2 ^ 1075"
    using eb by simp
  then have b_fin: "\<bar>b\<bar> < 2 ^ 1024"
    using small AB B0 b0 by linarith
  have sum: "\<bar>a + b - 1\<bar> \<le> 1 / 2 ^ 51"
  proof -
    define e :: real where "e = 1 / 9007199254740992"
    define h :: real where "h = 1 / 2 ^ 1075"
    have 1: "\<bar>a - A\<bar> \<le> A * e + h" "\<bar>b - B\<bar> \<le> B * e + h" "\<bar>q - 1\<bar> \<le> q * e"
      using ea eb qd by (simp_all add: e_def h_def)
    have "(A + B) * e = q * e"
      by (simp only: q_eq)
    then have 2: "A * e + B * e = q * e"
      by (simp only: distrib_right)
    have 3: "q * e \<le> 3 / 2 * e"
      using q_hi by (intro mult_right_mono) (simp_all add: e_def)
    have 4: "2 * h \<le> e"
      by (simp add: e_def h_def)
    have "\<bar>a + b - 1\<bar> \<le> 4 * e"
      using 1 2 3 4 q_eq by linarith
    then show ?thesis
      by (simp add: e_def)
  qed
  have sn: "s \<noteq> 0"
    using s_pos by simp
  have "rnd (Fin A) = Fin a"
    using a_fin by (intro rnd_eval) (simp only: a_def)
  then have ra: "rnd (jdiv (Fin 1) (Fin s)) = Fin a"
    by (simp only: jdiv_Fin [OF sn] A_def)
  have "rnd (Fin B) = Fin b"
    using b_fin by (intro rnd_eval) (simp only: b_def)
  then have rb: "rnd (jdiv (Fin r) (Fin s)) = Fin b"
    by (simp only: jdiv_Fin [OF sn] B_def)
  show ?thesis
    using ra rb a0 b0 sum by (simp only: rs) blast
qed


section \<open>The buffer fractions in double precision\<close>

lemma rnd_zero: "rnd (Fin 0) = Fin 0"
  by (rule rnd_eval) (simp_all add: to_double_zero)

lemma rnd_Fin_not_NaN: "rnd (Fin a) \<noteq> NaN"
  by (simp add: rnd.simps Let_def signed_inf_def)

lemma Math_pow10_cases:
  assumes "d \<noteq> NaN"
  shows "Math_pow10 d = PInf \<or>
    (\<exists>r. Math_pow10 d = Fin r \<and> 0 \<le> r \<and> r \<le> 2 ^ 1024 - 2 ^ 971)"
proof (cases d)
  case (Fin x)
  have "(0 :: real) \<le> 10 powr x"
    by simp
  then show ?thesis
    using rnd_nonneg_cases [of "10 powr x"] Fin by auto
next
  case NInf
  have "(0 :: real) \<le> 2 ^ 1024 - 2 ^ 971"
    by simp
  then show ?thesis
    using NInf by simp
qed (use assms in simp_all)

lemma buffer_fractions_overflow:
  "rnd (jdiv (Fin 1) (rnd (jadd (Fin 1) PInf))) = Fin 0"
  "rnd (jdiv PInf (rnd (jadd (Fin 1) PInf))) = NaN"
  by (simp_all add: rnd_zero)

lemma buffer_double_locals:
  assumes "buffer_double pH pKa mwAcid mwSalt totalVol totalConc = Some l"
  shows "local_ratio l = Math_pow10 (rnd (Fin (safeParse pH - safeParse pKa)))"
    and "local_X_Acid l = rnd (jdiv (Fin 1) (rnd (jadd (Fin 1) (local_ratio l))))"
    and "local_X_Salt l = rnd (jdiv (local_ratio l) (rnd (jadd (Fin 1) (local_ratio l))))"
  using assms by (auto simp: buffer_double_def Let_def split: if_splits)

lemma buffer_double_guard:
  assumes "0 < safeParse pKa" "0 < safeParse totalVol" "0 < safeParse totalConc"
    "0 < safeParse mwAcid" "0 < safeParse mwSalt"
  shows "\<exists>l. buffer_double pH pKa mwAcid mwSalt totalVol totalConc = Some l"
  using assms by (simp add: buffer_double_def Let_def)

lemma pow10_399: "rnd (Fin (10 powr 399)) = PInf"
proof -
  have eq: "(10 :: real) powr 399 = 10 ^ 399"
    by (simp add: powr_numeral)
  have "pow2 1024 \<le> (10 :: real) ^ 399"
    by (simp add: pow2_def)
  then have "pow2 1024 \<le> to_double (10 ^ 399)"
    by (intro to_double_ge_pow2) simp_all
  then have "2 ^ 1024 \<le> \<bar>to_double (10 ^ 399)\<bar>"
    by (simp add: pow2_def)
  then show ?thesis
    by (simp add: eq rnd.simps Let_def signed_inf_def)
qed

lemma pow10_minus_3: "(10 :: real) powr (- 3) = 1 / 1000"
proof -
  have "(10 :: real) powr (- 3) = 1 / 10 powr 3"
    by (rule powr_minus_divide)
  also have "(10 :: real) powr 3 = 10 ^ 3"
    by (simp add: powr_numeral)
  finally show ?thesis
    by simp
qed

lemma buffer_eval_one: "rnd (Fin 1) = Fin 1"
  apply (rule rnd_eval)
   apply (subst to_double_eval [where e = "0"])
      apply (simp_all add: pow2_def round_ties_even_def)
  done

lemma buffer_eval_two: "rnd (jadd (Fin 1) (Fin 1)) = Fin 2"
  apply (simp only: jadd_Fin)
  apply (simp only: one_add_one)
  apply (rule rnd_eval)
   apply (subst to_double_eval [where e = "1"])
      apply (simp_all add: pow2_def round_ties_even_def)
  done

lemma buffer_eval_half: "rnd (jdiv (Fin 1) (Fin 2)) = Fin (1 / 2)"
  apply (subst jdiv_Fin)
  apply (simp)
  apply (rule rnd_eval)
   apply (subst to_double_eval [where e = "- 1"])
      apply (simp_all add: pow2_def round_ties_even_def)
  done

lemma buffer_eval_399: "rnd (Fin 399) = Fin 399"
  apply (rule rnd_eval)
   apply (subst to_double_eval [where e = "8"])
      apply (simp_all add: pow2_def round_ties_even_def)
  done

lemma buffer_eval_minus_3: "rnd (Fin (- 3)) = Fin (- 3)"
  apply (rule rnd_eval)
   apply (subst to_double_eval [where e = "1"])
      apply (simp_all add: pow2_def round_ties_even_def)
  done

lemma buffer_eval_ratio: "rnd (Fin (1 / 1000)) = Fin (1152921504606847 / 2 ^ 60)"
  apply (rule rnd_eval)
   apply (subst to_double_eval [where e = "- 10"])
      apply (simp_all add: pow2_def round_ties_even_def)
  done

lemma buffer_eval_denominator: "rnd (jadd (Fin 1) (Fin (1152921504606847 / 2 ^ 60))) = Fin (2254051613498933 / 2 ^ 51)"
  apply (simp only: jadd_Fin)
  apply (rule rnd_eval)
   apply (subst to_double_eval [where e = "0"])
      apply (simp_all add: pow2_def round_ties_even_def)
  done

lemma buffer_eval_acid: "rnd (jdiv (Fin 1) (Fin (2254051613498933 / 2 ^ 51))) = Fin (4499100526843653 / 2 ^ 52)"
  apply (subst jdiv_Fin)
  apply (simp)
  apply (rule rnd_eval)
   apply (subst to_double_eval [where e = "- 1"])
      apply (simp_all add: pow2_def round_ties_even_def)
  done

lemma buffer_eval_salt: "rnd (jdiv (Fin (1152921504606847 / 2 ^ 60)) (Fin (2254051613498933 / 2 ^ 51))) = Fin (4607078939487901 / 2 ^ 62)"
  apply (subst jdiv_Fin)
  apply (simp)
  apply (rule rnd_eval)
   apply (subst to_double_eval [where e = "- 10"])
      apply (simp_all add: pow2_def round_ties_even_def)
  done

lemma buffer_eval_sum: "rnd (jadd (Fin (4499100526843653 / 2 ^ 52)) (Fin (4607078939487901 / 2 ^ 62))) = Fin (4503599627370497 / 2 ^ 52)"
  apply (simp only: jadd_Fin)
  apply (rule rnd_eval)
   apply (subst to_double_eval [where e = "0"])
      apply (simp_all add: pow2_def round_ties_even_def)
  done


text \<open>C8. Whenever the guard of the buffer calculator is satisfied, the ratio
  \<open>Math.pow(10, pH - pKa)\<close> is either \<open>Infinity\<close>, and then the acid fraction is 0 and
  the salt fraction is \<open>NaN\<close>, or a finite number \<open>r \<ge> 0\<close>, and then the two fractions
  \<open>1 / (1 + ratio)\<close> and \<open>ratio / (1 + ratio)\<close>, as computed in double precision, are
  finite and non-negative and their sum differs from 1 by at most \<open>2^-51\<close>.\<close>

theorem buffer_fractions_sum:
  "buffer_double pH pKa mwAcid mwSalt totalVol totalConc = Some l \<longrightarrow>
     (local_ratio l = PInf \<and> local_X_Acid l = Fin 0 \<and> local_X_Salt l = NaN) \<or>
     (\<exists>r a b. local_ratio l = Fin r \<and> 0 \<le> r \<and>
        local_X_Acid l = Fin a \<and> local_X_Salt l = Fin b \<and>
        0 \<le> a \<and> 0 \<le> b \<and> \<bar>a + b - 1\<bar> \<le> 1 / 2 ^ 51)"
proof
  assume h: "buffer_double pH pKa mwAcid mwSalt totalVol totalConc = Some l"
  note loc = buffer_double_locals [OF h]
  have "rnd (Fin (safeParse pH - safeParse pKa)) \<noteq> NaN"
    by (rule rnd_Fin_not_NaN)
  then have "local_ratio l = PInf \<or>
      (\<exists>r. local_ratio l = Fin r \<and> 0 \<le> r \<and> r \<le> 2 ^ 1024 - 2 ^ 971)"
    unfolding loc(1) by (rule Math_pow10_cases)
  then show "(local_ratio l = PInf \<and> local_X_Acid l = Fin 0 \<and> local_X_Salt l = NaN) \<or>
     (\<exists>r a b. local_ratio l = Fin r \<and> 0 \<le> r \<and>
        local_X_Acid l = Fin a \<and> local_X_Salt l = Fin b \<and>
        0 \<le> a \<and> 0 \<le> b \<and> \<bar>a + b - 1\<bar> \<le> 1 / 2 ^ 51)"
  proof
    assume inf: "local_ratio l = PInf"
    have "local_X_Acid l = Fin 0" "local_X_Salt l = NaN"
      using loc(2,3) by (simp_all only: inf buffer_fractions_overflow)
    then show ?thesis
      using inf by blast
  next
    assume "\<exists>r. local_ratio l = Fin r \<and> 0 \<le> r \<and> r \<le> 2 ^ 1024 - 2 ^ 971"
    then obtain r where r: "local_ratio l = Fin r" "0 \<le> r" "r \<le> 2 ^ 1024 - 2 ^ 971"
      by blast
    obtain a b where ab: "rnd (jdiv (Fin 1) (rnd (jadd (Fin 1) (Fin r)))) = Fin a"
        "rnd (jdiv (Fin r) (rnd (jadd (Fin 1) (Fin r)))) = Fin b"
        "0 \<le> a" "0 \<le> b" "\<bar>a + b - 1\<bar> \<le> 1 / 2 ^ 51"
      using buffer_fractions_double [OF r(2,3)] by blast
    have "local_X_Acid l = Fin a" "local_X_Salt l = Fin b"
      using loc(2,3) by (simp_all only: r(1) ab(1,2))
    then show ?thesis
      using r(1,2) ab(3,4,5) by blast
  qed
qed

theorem buffer_fractions_sum_witness:
  "\<exists>l. buffer_double (Fin 7) (Fin 7) (Fin 1) (Fin 1) (Fin 1000) (Fin 1) = Some l \<and>
     local_ratio l = Fin 1 \<and> local_X_Acid l = Fin (1 / 2) \<and> local_X_Salt l = Fin (1 / 2) \<and>
     (\<exists>r a b. local_ratio l = Fin r \<and> 0 \<le> r \<and>
        local_X_Acid l = Fin a \<and> local_X_Salt l = Fin b \<and>
        0 \<le> a \<and> 0 \<le> b \<and> \<bar>a + b - 1\<bar> \<le> 1 / 2 ^ 51)"
proof -
  obtain l where l: "buffer_double (Fin 7) (Fin 7) (Fin 1) (Fin 1) (Fin 1000) (Fin 1) = Some l"
    using buffer_double_guard [of "Fin 7" "Fin 1000" "Fin 1" "Fin 1" "Fin 1" "Fin 7"] by auto
  note loc = buffer_double_locals [OF l]
  have "local_ratio l = Math_pow10 (rnd (Fin 0))"
    using loc(1) by simp
  then have ratio: "local_ratio l = Fin 1"
    by (simp add: rnd_zero buffer_eval_one)
  have acid: "local_X_Acid l = Fin (1 / 2)"
    using loc(2) by (simp only: ratio buffer_eval_two buffer_eval_half)
  have salt: "local_X_Salt l = Fin (1 / 2)"
    using loc(3) by (simp only: ratio buffer_eval_two buffer_eval_half)
  have "(local_ratio l = PInf \<and> local_X_Acid l = Fin 0 \<and> local_X_Salt l = NaN) \<or>
     (\<exists>r a b. local_ratio l = Fin r \<and> 0 \<le> r \<and>
        local_X_Acid l = Fin a \<and> local_X_Salt l = Fin b \<and>
        0 \<le> a \<and> 0 \<le> b \<and> \<bar>a + b - 1\<bar> \<le> 1 / 2 ^ 51)"
    using buffer_fractions_sum [of "Fin 7" "Fin 7" "Fin 1" "Fin 1" "Fin 1000" "Fin 1" l] l
    by blast
  then have "\<exists>r a b. local_ratio l = Fin r \<and> 0 \<le> r \<and>
        local_X_Acid l = Fin a \<and> local_X_Salt l = Fin b \<and>
        0 \<le> a \<and> 0 \<le> b \<and> \<bar>a + b - 1\<bar> \<le> 1 / 2 ^ 51"
    using ratio by auto
  then show ?thesis
    using l ratio acid salt by blast
qed

theorem buffer_fractions_not_complementary:
  "(\<exists>l. buffer_double (Fin 400) (Fin 1) (Fin 1) (Fin 1) (Fin 1000) (Fin 1) = Some l \<and>
      local_ratio l = PInf \<and> local_X_Acid l = Fin 0 \<and> local_X_Salt l = NaN) \<and>
   (\<exists>l. buffer_double (Fin 4) (Fin 7) (Fin 1) (Fin 1) (Fin 1000) (Fin 1) = Some l \<and>
      local_ratio l = Fin (1152921504606847 / 2 ^ 60) \<and>
      local_X_Acid l = Fin (4499100526843653 / 2 ^ 52) \<and>
      local_X_Salt l = Fin (4607078939487901 / 2 ^ 62) \<and>
      4499100526843653 / 2 ^ 52 + 4607078939487901 / 2 ^ 62 \<noteq> (1 :: real) \<and>
      rnd (jadd (local_X_Acid l) (local_X_Salt l)) = Fin (4503599627370497 / 2 ^ 52) \<and>
      4503599627370497 / 2 ^ 52 \<noteq> (1 :: real))"
proof (intro conjI)
  obtain l where l: "buffer_double (Fin 400) (Fin 1) (Fin 1) (Fin 1) (Fin 1000) (Fin 1) = Some l"
    using buffer_double_guard [of "Fin 1" "Fin 1000" "Fin 1" "Fin 1" "Fin 1" "Fin 400"] by auto
  note loc = buffer_double_locals [OF l]
  have "local_ratio l = Math_pow10 (rnd (Fin 399))"
    using loc(1) by simp
  then have ratio: "local_ratio l = PInf"
    by (simp only: buffer_eval_399 Math_pow10.simps pow10_399)
  have "local_X_Acid l = Fin 0" "local_X_Salt l = NaN"
    using loc(2,3) by (simp_all only: ratio buffer_fractions_overflow)
  then show "\<exists>l. buffer_double (Fin 400) (Fin 1) (Fin 1) (Fin 1) (Fin 1000) (Fin 1) = Some l \<and>
      local_ratio l = PInf \<and> local_X_Acid l = Fin 0 \<and> local_X_Salt l = NaN"
    using l ratio by blast
next
  obtain l where l: "buffer_double (Fin 4) (Fin 7) (Fin 1) (Fin 1) (Fin 1000) (Fin 1) = Some l"
    using buffer_double_guard [of "Fin 7" "Fin 1000" "Fin 1" "Fin 1" "Fin 1" "Fin 4"] by auto
  note loc = buffer_double_locals [OF l]
  have "local_ratio l = Math_pow10 (rnd (Fin (- 3)))"
    using loc(1) by simp
  then have "local_ratio l = rnd (Fin (10 powr (- 3)))"
    by (simp only: buffer_eval_minus_3 Math_pow10.simps)
  then have ratio: "local_ratio l = Fin (1152921504606847 / 2 ^ 60)"
    by (simp only: pow10_minus_3 buffer_eval_ratio)
  have acid: "local_X_Acid l = Fin (4499100526843653 / 2 ^ 52)"
    using loc(2) by (simp only: ratio buffer_eval_denominator buffer_eval_acid)
  have salt: "local_X_Salt l = Fin (4607078939487901 / 2 ^ 62)"
    using loc(3) by (simp only: ratio buffer_eval_denominator buffer_eval_salt)
  have sum: "rnd (jadd (local_X_Acid l) (local_X_Salt l)) = Fin (4503599627370497 / 2 ^ 52)"
    by (simp only: acid salt buffer_eval_sum)
  have ne: "4499100526843653 / 2 ^ 52 + 4607078939487901 / 2 ^ 62 \<noteq> (1 :: real)" "4503599627370497 / 2 ^ 52 \<noteq> (1 :: real)"
    by simp_all
  show "\<exists>l. buffer_double (Fin 4) (Fin 7) (Fin 1) (Fin 1) (Fin 1000) (Fin 1) = Some l \<and>
      local_ratio l = Fin (1152921504606847 / 2 ^ 60) \<and>
      local_X_Acid l = Fin (4499100526843653 / 2 ^ 52) \<and>
      local_X_Salt l = Fin (4607078939487901 / 2 ^ 62) \<and>
      4499100526843653 / 2 ^ 52 + 4607078939487901 / 2 ^ 62 \<noteq> (1 :: real) \<and>
      rnd (jadd (local_X_Acid l) (local_X_Salt l)) = Fin (4503599627370497 / 2 ^ 52) \<and>
      4503599627370497 / 2 ^ 52 \<noteq> (1 :: real)"
    using l ratio acid salt sum ne by blast
qed

end
